theory Spec2Isabelle
  imports Main "HOL-Library.Sublist" "HOL-Library.AList"
begin

section \<open>Python values used by \<open>scripts/validate_min_versions_in_sync.py\<close>\<close>

text \<open>
  The script compares the minimum versions of the optional dependencies declared in a CI
  environment file, in the table \<open>VERSIONS\<close> of \<open>pandas/compat/_optional.py\<close> and in
  \<open>setup.cfg\<close>. Every function of the script is embedded below as a HOL function of the
  same name.

  A Python \<open>str\<close> is a \<^typ>\<open>string\<close>; the model covers ASCII text, one \<^typ>\<open>char\<close> per
  code point. A Python \<open>dict\<close> of strings is an association list in insertion order:
  \<open>d[k] = v\<close> is \<^const>\<open>AList.update\<close> (the value of an existing key is replaced in
  place, a new key is appended), \<open>d.get(k, x)\<close> reads \<^const>\<open>map_of\<close>. An exception that
  the script does not catch is the \<open>Inl\<close> of a sum.
\<close>

datatype py_error = KeyError | ValueError | StopIteration

type_synonym dict = "(string \<times> string) list"

definition nl :: char where
  "nl = CHR 0x0A"

subsection \<open>String methods\<close>

text \<open>\<open>sub in s\<close>: \<open>sub\<close> occurs in \<open>s\<close> as a contiguous substring.\<close>

fun str_in :: "string \<Rightarrow> string \<Rightarrow> bool" where
  "str_in sub [] = (sub = [])"
| "str_in sub (c # cs) = (prefix sub (c # cs) \<or> str_in sub cs)"

text \<open>
  The characters that \<open>str.isspace\<close> accepts in the ASCII range: tab, line feed, vertical
  tab, form feed, carriage return, the four separators \<open>0x1C\<close> to \<open>0x1F\<close>, and the space.
\<close>

definition isspace :: "char \<Rightarrow> bool" where
  "isspace c = (let n = (of_char c :: nat) in (9 \<le> n \<and> n \<le> 13) \<or> (28 \<le> n \<and> n \<le> 32))"

text \<open>\<open>s.strip()\<close>: leading and trailing whitespace removed.\<close>

definition str_strip :: "string \<Rightarrow> string" where
  "str_strip s = rev (dropWhile isspace (rev (dropWhile isspace s)))"

text \<open>\<open>s.casefold()\<close> on ASCII text: the letters \<open>A\<close> to \<open>Z\<close> become \<open>a\<close> to \<open>z\<close>.\<close>

definition casefold_char :: "char \<Rightarrow> char" where
  "casefold_char c =
     (let n = (of_char c :: nat) in if 65 \<le> n \<and> n \<le> 90 then char_of (n + 32) else c)"

definition casefold :: "string \<Rightarrow> string" where
  "casefold s = map casefold_char s"

text \<open>
  \<open>s.split(sep)\<close> for a non-empty separator: \<open>s\<close> is cut at the occurrences of \<open>sep\<close>
  found from left to right, each search starting after the previous occurrence. The result
  is never empty. The script only splits on the literals \<open>==\<close>, \<open>=\<close>, \<open>>=\<close> and the
  line feed.
\<close>

function str_split :: "string \<Rightarrow> string \<Rightarrow> string list" where
  "str_split [] sep = [[]]"
| "str_split (c # cs) sep =
     (if sep \<noteq> [] \<and> prefix sep (c # cs)
      then [] # str_split (drop (length sep) (c # cs)) sep
      else (let r = str_split cs sep in (c # hd r) # tl r))"
  by pat_completeness auto
termination
  by (relation "measure (\<lambda>(s, sep). length s)") auto

text \<open>
  \<open>s.count(sep)\<close>: the number of non-overlapping occurrences of \<open>sep\<close> in \<open>s\<close>, counted
  from left to right.
\<close>

function str_count :: "string \<Rightarrow> string \<Rightarrow> nat" where
  "str_count [] sep = 0"
| "str_count (c # cs) sep =
     (if sep \<noteq> [] \<and> prefix sep (c # cs)
      then Suc (str_count (drop (length sep) (c # cs)) sep)
      else str_count cs sep)"
  by pat_completeness auto
termination
  by (relation "measure (\<lambda>(s, sep). length s)") auto

text \<open>
  The assignment \<open>package, version = parts\<close> unpacks a list of exactly two elements and
  raises \<open>ValueError\<close> on any other length.
\<close>

fun unpack2 :: "string list \<Rightarrow> py_error + string \<times> string" where
  "unpack2 [a, b] = Inr (a, b)"
| "unpack2 _ = Inl ValueError"

subsection \<open>Dictionaries\<close>

definition keys :: "dict \<Rightarrow> string set" where
  "keys d = fst ` set d"

text \<open>\<open>d.get(k, dflt)\<close>: the value of \<open>k\<close>, or \<open>dflt\<close> when \<open>k\<close> is not a key.\<close>

definition dict_get :: "dict \<Rightarrow> string \<Rightarrow> string \<Rightarrow> string" where
  "dict_get d k dflt = (case map_of d k of None \<Rightarrow> dflt | Some v \<Rightarrow> v)"

text \<open>\<open>d.pop(k)\<close> without a default: \<open>KeyError\<close> when \<open>k\<close> is not a key of \<open>d\<close>.\<close>

definition dict_pop :: "string \<Rightarrow> dict \<Rightarrow> py_error + dict" where
  "dict_pop k d = (if k \<in> keys d then Inr (AList.delete k d) else Inl KeyError)"

section \<open>Module constants\<close>

text \<open>
  \<open>CI_PATH = next(pathlib.Path("ci/deps").absolute().glob("actions-*-minimum_versions.yaml"))\<close>.
  The argument is the sequence of paths that the generator returned by \<open>glob\<close> yields for
  the pattern; \<open>next\<close> takes its first element and raises \<open>StopIteration\<close> when there is
  none.
\<close>

fun CI_PATH :: "string list \<Rightarrow> py_error + string" where
  "CI_PATH [] = Inl StopIteration"
| "CI_PATH (p # ps) = Inr p"

text \<open>\<open>EXCLUDE_DEPS = {"tzdata"}\<close>, in the order in which the \<open>for\<close> loops visit it.\<close>

definition EXCLUDE_DEPS :: "string list" where
  "EXCLUDE_DEPS = [''tzdata'']"

text \<open>
  The module \<open>_optional\<close> is imported from \<open>pandas/compat\<close>; its two tables are inputs of
  the model. The module object is shared: a function that changes \<open>VERSIONS\<close> returns the
  changed module.
\<close>

record optional_module =
  INSTALL_MAPPING :: dict
  VERSIONS :: dict

section \<open>The CI file reader\<close>

record ci_state =
  seen_required :: bool
  seen_optional :: bool
  required_deps :: dict
  optional_deps :: dict

text \<open>
  Lines 66 to 71: the stripped line is split on \<open>==\<close> when the line contains it, else on
  \<open>=\<close>; the two parts are unpacked and the first two characters of the first part are
  dropped.
\<close>

definition ci_delimiter :: "string \<Rightarrow> string" where
  "ci_delimiter line = (if str_in ''=='' line then ''=='' else ''='')"

definition ci_parse :: "string \<Rightarrow> py_error + string \<times> string" where
  "ci_parse line =
     (case unpack2 (str_split (str_strip line) (ci_delimiter line)) of
        Inl e \<Rightarrow> Inl e
      | Inr (package, version) \<Rightarrow> Inr (drop 2 package, version))"

text \<open>One iteration of the loop over the lines (lines 59 to 77).\<close>

definition ci_line :: "ci_state \<Rightarrow> string \<Rightarrow> py_error + ci_state" where
  "ci_line st line =
     (if str_in ''# required dependencies'' line then Inr (st\<lparr>seen_required := True\<rparr>)
      else if str_in ''# optional dependencies'' line then Inr (st\<lparr>seen_optional := True\<rparr>)
      else if str_in ''- pip:'' line then Inr st
      else if seen_required st \<and> str_strip line \<noteq> [] then
        (case ci_parse line of
           Inl e \<Rightarrow> Inl e
         | Inr (package, version) \<Rightarrow>
             if package \<in> set EXCLUDE_DEPS then Inr st
             else if \<not> seen_optional st
             then Inr (st\<lparr>required_deps := AList.update (casefold package) version (required_deps st)\<rparr>)
             else Inr (st\<lparr>optional_deps := AList.update (casefold package) version (optional_deps st)\<rparr>))
      else Inr st)"

fun ci_loop :: "ci_state \<Rightarrow> string list \<Rightarrow> py_error + ci_state" where
  "ci_loop st [] = Inr st"
| "ci_loop st (line # content) =
     (case ci_line st line of Inl e \<Rightarrow> Inl e | Inr st' \<Rightarrow> ci_loop st' content)"

definition ci_init :: ci_state where
  "ci_init = \<lparr>seen_required = False, seen_optional = False, required_deps = [], optional_deps = []\<rparr>"

definition get_versions_from_ci :: "string list \<Rightarrow> py_error + dict \<times> dict" where
  "get_versions_from_ci content =
     (case ci_loop ci_init content of
        Inl e \<Rightarrow> Inl e
      | Inr st \<Rightarrow> Inr (required_deps st, optional_deps st))"

section \<open>The code table reader\<close>

text \<open>
  Lines 43 and 44: \<open>versions\<close> is the table of the module itself, not a copy, and every
  \<open>pop\<close> that succeeds changes it. The loop returns the table as it stands when the loop
  ends or raises.
\<close>

fun pop_excluded :: "string list \<Rightarrow> dict \<Rightarrow> py_error option \<times> dict" where
  "pop_excluded [] versions = (None, versions)"
| "pop_excluded (item # items) versions =
     (case dict_pop item versions of
        Inl e \<Rightarrow> (Some e, versions)
      | Inr versions' \<Rightarrow> pop_excluded items versions')"

text \<open>
  Lines 45 to 49: a dictionary comprehension stores its entries in the order of
  \<open>versions.items()\<close>; \<open>code_comprehension\<close> takes the dictionary built so far.
\<close>

fun code_comprehension :: "dict \<Rightarrow> dict \<Rightarrow> dict \<Rightarrow> dict" where
  "code_comprehension install_map acc [] = acc"
| "code_comprehension install_map acc ((k, v) # items) =
     (if k \<noteq> ''pytest''
      then code_comprehension install_map
             (AList.update (casefold (dict_get install_map k k)) v acc) items
      else code_comprehension install_map acc items)"

definition get_versions_from_code :: "optional_module \<Rightarrow> (py_error + dict) \<times> optional_module" where
  "get_versions_from_code m =
     (let install_map = INSTALL_MAPPING m in
      case pop_excluded EXCLUDE_DEPS (VERSIONS m) of
        (Some e, versions) \<Rightarrow> (Inl e, m\<lparr>VERSIONS := versions\<rparr>)
      | (None, versions) \<Rightarrow>
          (Inr (code_comprehension install_map [] versions), m\<lparr>VERSIONS := versions\<rparr>))"

section \<open>The manifest reader\<close>

text \<open>
  The two arguments \<open>setup_optional\<close> and \<open>test\<close> are the values that \<open>configparser\<close>
  returns for the keys \<open>all\<close> and \<open>test\<close> of the section \<open>options.extras_require\<close> of
  \<open>setup.cfg\<close>: the entries, each preceded by a line feed.
\<close>

text \<open>Lines 88 to 95: the entries of \<open>all\<close> that are not entries of \<open>test\<close>.\<close>

definition setup_dependencies :: "string \<Rightarrow> string \<Rightarrow> string list" where
  "setup_dependencies setup_optional test =
     (let dependencies = str_split (drop 1 setup_optional) [nl];
          test_dependencies = set (str_split (drop 1 test) [nl])
      in filter (\<lambda>package. package \<notin> test_dependencies) dependencies)"

text \<open>Line 98.\<close>

definition setup_parse :: "string \<Rightarrow> py_error + string \<times> string" where
  "setup_parse dependency = unpack2 (str_split (str_strip dependency) ''>='')"

text \<open>Lines 97 to 99.\<close>

fun setup_loop :: "dict \<Rightarrow> dict \<Rightarrow> string list \<Rightarrow> py_error + dict" where
  "setup_loop install_map optional_dependencies [] = Inr optional_dependencies"
| "setup_loop install_map optional_dependencies (dependency # dependencies) =
     (case setup_parse dependency of
        Inl e \<Rightarrow> Inl e
      | Inr (package, version) \<Rightarrow>
          setup_loop install_map
            (AList.update (casefold (dict_get install_map package package)) version
               optional_dependencies)
            dependencies)"

text \<open>Lines 101 and 102; the dictionary is local, so only the result is returned.\<close>

fun pop_all :: "string list \<Rightarrow> dict \<Rightarrow> py_error + dict" where
  "pop_all [] d = Inr d"
| "pop_all (item # items) d =
     (case dict_pop item d of Inl e \<Rightarrow> Inl e | Inr d' \<Rightarrow> pop_all items d')"

definition get_versions_from_setup :: "dict \<Rightarrow> string \<Rightarrow> string \<Rightarrow> py_error + dict" where
  "get_versions_from_setup install_map setup_optional test =
     (case setup_loop install_map [] (setup_dependencies setup_optional test) of
        Inl e \<Rightarrow> Inl e
      | Inr optional_dependencies \<Rightarrow> pop_all EXCLUDE_DEPS optional_dependencies)"

section \<open>The comparison and the report\<close>

text \<open>The three paths that the report prints.\<close>

record paths =
  ci_path :: string
  CODE_PATH :: string
  SETUP_PATH :: string

text \<open>
  Lines 113 to 115. The result of the set operators on \<open>items()\<close> is a Python set of
  pairs. Python leaves the order in which a set is visited open; the model lists the
  elements of a set once each, in the order that \<^const>\<open>remdups\<close> gives, and the
  theorems about the report do not depend on that order.
\<close>

definition main_diff :: "dict \<Rightarrow> dict \<Rightarrow> dict \<Rightarrow> (string \<times> string) list" where
  "main_diff ci_optional code_optional setup_optional =
     filter (\<lambda>item. \<not> (item \<in> set ci_optional \<and> item \<in> set code_optional
                          \<and> item \<in> set setup_optional))
       (remdups (ci_optional @ code_optional @ setup_optional))"

text \<open>Line 118.\<close>

definition main_packages :: "(string \<times> string) list \<Rightarrow> string list" where
  "main_packages diff = remdups (map fst diff)"

text \<open>Lines 120 to 124.\<close>

definition report_header :: "paths \<Rightarrow> string" where
  "report_header p =
     ''The follow minimum version differences were found between  ''
     @ ci_path p @ '', '' @ CODE_PATH p @ '' AND '' @ SETUP_PATH p @ ''. ''
     @ ''Please ensure these are aligned: '' @ [nl, nl]"

text \<open>Lines 127 to 132.\<close>

definition report_package :: "paths \<Rightarrow> dict \<Rightarrow> dict \<Rightarrow> dict \<Rightarrow> string \<Rightarrow> string" where
  "report_package p ci_optional code_optional setup_optional package =
     package @ [nl]
     @ ci_path p @ '': '' @ dict_get ci_optional package ''Not specified'' @ [nl]
     @ CODE_PATH p @ '': '' @ dict_get code_optional package ''Not specified'' @ [nl]
     @ SETUP_PATH p @ '': '' @ dict_get setup_optional package ''Not specified'' @ [nl, nl]"

text \<open>
  Lines 113 to 134: what \<open>main\<close> writes to the standard output and the status it passes
  to \<open>sys.exit\<close>.
\<close>

definition main_report :: "paths \<Rightarrow> dict \<Rightarrow> dict \<Rightarrow> dict \<Rightarrow> string \<times> nat" where
  "main_report p ci_optional code_optional setup_optional =
     (let diff = main_diff ci_optional code_optional setup_optional in
      if diff \<noteq> [] then
        (report_header p
         @ concat (map (report_package p ci_optional code_optional setup_optional)
                     (main_packages diff)), 1)
      else ([], 0))"

text \<open>
  The inputs of a run: the lines of the CI file as \<open>readlines\<close> returns them, the imported
  module, and the two values read from \<open>setup.cfg\<close>.
\<close>

record world =
  the_paths :: paths
  ci_lines :: "string list"
  optional :: optional_module
  setup_all :: string
  setup_test :: string

text \<open>
  \<open>main\<close>: an exception raised by a reader is not caught and ends the program (\<open>Inl\<close>);
  otherwise the program ends with the output and the exit status of the report.
\<close>

definition main :: "world \<Rightarrow> py_error + string \<times> nat" where
  "main w =
     (case get_versions_from_ci (ci_lines w) of
        Inl e \<Rightarrow> Inl e
      | Inr (required, ci_optional) \<Rightarrow>
          (case get_versions_from_code (optional w) of
             (Inl e, m) \<Rightarrow> Inl e
           | (Inr code_optional, m) \<Rightarrow>
               (case get_versions_from_setup (INSTALL_MAPPING m) (setup_all w) (setup_test w) of
                  Inl e \<Rightarrow> Inl e
                | Inr setup_optional \<Rightarrow>
                    Inr (main_report (the_paths w) ci_optional code_optional setup_optional))))"

section \<open>The sections of the CI file\<close>

text \<open>
  Section 4.1 of the specification describes the reader by sections: the lines of a
  section are dependency declarations, except the blank lines, the pip markers and the
  marker comments; a declaration is parsed, a package of the exclusion set is dropped, and
  the name is case-folded. \<open>section_entries\<close> is that description for the lines of one
  section, and \<open>dict_of_entries\<close> stores the entries of a section in their order.
\<close>

fun section_entries :: "string list \<Rightarrow> py_error + (string \<times> string) list" where
  "section_entries [] = Inr []"
| "section_entries (line # content) =
     (if str_in ''# required dependencies'' line \<or> str_in ''# optional dependencies'' line
         \<or> str_in ''- pip:'' line \<or> str_strip line = []
      then section_entries content
      else (case ci_parse line of
              Inl e \<Rightarrow> Inl e
            | Inr (package, version) \<Rightarrow>
                (case section_entries content of
                   Inl e \<Rightarrow> Inl e
                 | Inr entries \<Rightarrow>
                     Inr (if package \<in> set EXCLUDE_DEPS then entries
                          else (casefold package, version) # entries))))"

definition store_entries :: "(string \<times> string) list \<Rightarrow> dict \<Rightarrow> dict" where
  "store_entries entries d = fold (\<lambda>(k, v). AList.update k v) entries d"

definition dict_of_entries :: "(string \<times> string) list \<Rightarrow> dict" where
  "dict_of_entries entries = store_entries entries []"

section \<open>The comparison: difference, report and exit status\<close>

lemma set_main_diff:
  "set (main_diff a b c) = (set a \<union> set b \<union> set c) - (set a \<inter> set b \<inter> set c)"
  by (auto simp: main_diff_def)

lemma main_packages_distinct: "distinct (main_packages d)"
  by (simp add: main_packages_def)

lemma set_main_packages: "set (main_packages d) = fst ` set d"
  by (simp add: main_packages_def)

lemma report_package_unfold:
  "report_package p a b c package =
     package @ [nl]
     @ ci_path p @ '': '' @ (case map_of a package of Some v \<Rightarrow> v | None \<Rightarrow> ''Not specified'') @ [nl]
     @ CODE_PATH p @ '': '' @ (case map_of b package of Some v \<Rightarrow> v | None \<Rightarrow> ''Not specified'') @ [nl]
     @ SETUP_PATH p @ '': '' @ (case map_of c package of Some v \<Rightarrow> v | None \<Rightarrow> ''Not specified'') @ [nl, nl]"
  by (simp add: report_package_def dict_get_def split: option.split)

text \<open>
  Claim C1. For any three mappings (CI optional, code, setup), the difference that \<open>main\<close>
  computes is the union of the pairs of the three mappings minus the pairs that all three
  have. When it is empty nothing is written and the exit status is 0. When it is not
  empty the exit status is 1 and the output is the header followed by one block for each
  package of the difference, each package once; a block gives the name of the package and,
  for each of the three sources, its version there or \<open>Not specified\<close>.
\<close>

theorem main_report_diff:
  "set (main_diff a b c) = (set a \<union> set b \<union> set c) - (set a \<inter> set b \<inter> set c)
    \<and> (main_diff a b c = [] \<longrightarrow> main_report p a b c = ([], 0))
    \<and> (main_diff a b c \<noteq> [] \<longrightarrow>
         (\<exists>packages. distinct packages \<and> set packages = fst ` set (main_diff a b c)
            \<and> main_report p a b c =
                (report_header p @ concat (map (report_package p a b c) packages), 1)))
    \<and> report_package p a b c package =
         package @ [nl]
         @ ci_path p @ '': '' @ (case map_of a package of Some v \<Rightarrow> v | None \<Rightarrow> ''Not specified'') @ [nl]
         @ CODE_PATH p @ '': '' @ (case map_of b package of Some v \<Rightarrow> v | None \<Rightarrow> ''Not specified'') @ [nl]
         @ SETUP_PATH p @ '': '' @ (case map_of c package of Some v \<Rightarrow> v | None \<Rightarrow> ''Not specified'') @ [nl, nl]"
proof (intro conjI impI)
  show "set (main_diff a b c) = (set a \<union> set b \<union> set c) - (set a \<inter> set b \<inter> set c)"
    by (rule set_main_diff)
next
  assume "main_diff a b c = []"
  then show "main_report p a b c = ([], 0)"
    by (simp add: main_report_def)
next
  assume "main_diff a b c \<noteq> []"
  then have "main_report p a b c =
      (report_header p @ concat (map (report_package p a b c) (main_packages (main_diff a b c))), 1)"
    by (simp add: main_report_def)
  then show "\<exists>packages. distinct packages \<and> set packages = fst ` set (main_diff a b c)
            \<and> main_report p a b c =
                (report_header p @ concat (map (report_package p a b c) packages), 1)"
    using main_packages_distinct set_main_packages by blast
next
  show "report_package p a b c package =
         package @ [nl]
         @ ci_path p @ '': '' @ (case map_of a package of Some v \<Rightarrow> v | None \<Rightarrow> ''Not specified'') @ [nl]
         @ CODE_PATH p @ '': '' @ (case map_of b package of Some v \<Rightarrow> v | None \<Rightarrow> ''Not specified'') @ [nl]
         @ SETUP_PATH p @ '': '' @ (case map_of c package of Some v \<Rightarrow> v | None \<Rightarrow> ''Not specified'') @ [nl, nl]"
    by (rule report_package_unfold)
qed

text \<open>
  The theorem at three agreeing mappings, and at the mappings where the code table alone
  asks for \<open>numpy 1.21\<close>.
\<close>

theorem main_report_diff_witness:
  "main_diff [(''numpy'', ''1.20'')] [(''numpy'', ''1.20'')] [(''numpy'', ''1.20'')] = []
   \<and> main_report \<lparr>ci_path = ''ci'', CODE_PATH = ''code'', SETUP_PATH = ''setup''\<rparr>
      [(''numpy'', ''1.20'')] [(''numpy'', ''1.20'')] [(''numpy'', ''1.20'')] = ([], 0)
   \<and> main_diff [(''numpy'', ''1.20'')] [(''numpy'', ''1.21'')] [(''numpy'', ''1.20'')] \<noteq> []
   \<and> (\<exists>packages. distinct packages \<and> set packages = {''numpy''}
        \<and> main_report \<lparr>ci_path = ''ci'', CODE_PATH = ''code'', SETUP_PATH = ''setup''\<rparr>
      [(''numpy'', ''1.20'')] [(''numpy'', ''1.21'')] [(''numpy'', ''1.20'')]
       = (report_header \<lparr>ci_path = ''ci'', CODE_PATH = ''code'', SETUP_PATH = ''setup''\<rparr> @
          concat (map (report_package \<lparr>ci_path = ''ci'', CODE_PATH = ''code'', SETUP_PATH = ''setup''\<rparr>
      [(''numpy'', ''1.20'')] [(''numpy'', ''1.21'')] [(''numpy'', ''1.20'')]) packages), 1))"
proof -
  let ?p = "\<lparr>ci_path = ''ci'', CODE_PATH = ''code'', SETUP_PATH = ''setup''\<rparr>"
  let ?a = "[(''numpy'', ''1.20'')]"
  let ?b = "[(''numpy'', ''1.21'')]"
  have e: "main_diff ?a ?a ?a = []"
    by (simp add: main_diff_def)
  have n: "main_diff ?a ?b ?a = [(''numpy'', ''1.21''), (''numpy'', ''1.20'')]"
    by (simp add: main_diff_def)
  have f: "fst ` set (main_diff ?a ?b ?a) = {''numpy''}"
    by (simp add: n)
  have "main_diff ?a ?a ?a = [] \<longrightarrow> main_report ?p ?a ?a ?a = ([], 0)"
    by (rule main_report_diff [of ?a ?a ?a ?p, THEN conjunct2, THEN conjunct1])
  with e have r0: "main_report ?p ?a ?a ?a = ([], 0)" by (rule rev_mp)
  have ne: "main_diff ?a ?b ?a \<noteq> []"
    by (simp add: n)
  have "main_diff ?a ?b ?a \<noteq> [] \<longrightarrow>
         (\<exists>packages. distinct packages \<and> set packages = fst ` set (main_diff ?a ?b ?a)
            \<and> main_report ?p ?a ?b ?a =
                (report_header ?p @ concat (map (report_package ?p ?a ?b ?a) packages), 1))"
    by (rule main_report_diff [of ?a ?b ?a ?p, THEN conjunct2, THEN conjunct2, THEN conjunct1])
  with ne have "\<exists>packages. distinct packages \<and> set packages = fst ` set (main_diff ?a ?b ?a)
            \<and> main_report ?p ?a ?b ?a =
                (report_header ?p @ concat (map (report_package ?p ?a ?b ?a) packages), 1)"
    by (rule rev_mp)
  then have r1: "\<exists>packages. distinct packages \<and> set packages = {''numpy''}
            \<and> main_report ?p ?a ?b ?a =
                (report_header ?p @ concat (map (report_package ?p ?a ?b ?a) packages), 1)"
    by (simp only: f)
  from e r0 ne r1 show ?thesis by (intro conjI)
qed

section \<open>Resolution of the CI file\<close>

text \<open>
  Claim C3 says that the resolution of the CI file fails when the pattern matches no file
  and when it matches several. With two matches \<open>next\<close> returns the first and nothing is
  raised.
\<close>

theorem CI_PATH_two_matches:
  "CI_PATH [''ci/deps/actions-38-minimum_versions.yaml'',
            ''ci/deps/actions-39-minimum_versions.yaml'']
     = Inr ''ci/deps/actions-38-minimum_versions.yaml''"
  by simp

text \<open>
  Claim C3, amended. The resolution fails exactly when the pattern matches no file, and
  the exception is \<open>StopIteration\<close>; with one match or more, \<open>CI_PATH\<close> is the first path
  that \<open>glob\<close> yields.
\<close>

theorem CI_PATH_resolution:
  "((\<exists>e. CI_PATH matches = Inl e) \<longleftrightarrow> matches = [])
   \<and> (matches = [] \<longrightarrow> CI_PATH matches = Inl StopIteration)
   \<and> (\<forall>p ps. matches = p # ps \<longrightarrow> CI_PATH matches = Inr p)"
  by (cases matches) simp_all

text \<open>The theorem at no match and at one match.\<close>

theorem CI_PATH_resolution_witness:
  "CI_PATH [] = Inl StopIteration
   \<and> CI_PATH [''ci/deps/actions-38-minimum_versions.yaml'']
       = Inr ''ci/deps/actions-38-minimum_versions.yaml''"
  using CI_PATH_resolution [of "[]"]
    CI_PATH_resolution [of "[''ci/deps/actions-38-minimum_versions.yaml'']"]
  by blast

section \<open>Removal of the excluded packages\<close>

lemma keys_delete: "keys (AList.delete k d) = keys d - {k}"
  by (auto simp: keys_def AList.delete_eq)

lemma keys_update: "keys (AList.update k v d) = insert k (keys d)"
  by (induction d) (auto simp: keys_def)

lemma pop_all_missing:
  "\<exists>item\<in>set items. item \<notin> keys d \<Longrightarrow> pop_all items d = Inl KeyError"
proof (induction items arbitrary: d)
  case Nil
  then show ?case by simp
next
  case (Cons item items)
  show ?case
  proof (cases "item \<in> keys d")
    case False
    then show ?thesis by (simp add: dict_pop_def)
  next
    case True
    with Cons.prems have "\<exists>i\<in>set items. i \<notin> keys (AList.delete item d)"
      by (auto simp: keys_delete)
    then have "pop_all items (AList.delete item d) = Inl KeyError"
      by (rule Cons.IH)
    with True show ?thesis by (simp add: dict_pop_def)
  qed
qed

lemma pop_all_returns:
  "pop_all items d = Inr d' \<Longrightarrow> set items \<subseteq> keys d \<and> keys d' = keys d - set items"
proof (induction items arbitrary: d)
  case Nil
  then show ?case by simp
next
  case (Cons item items)
  from Cons.prems have k: "item \<in> keys d" and r: "pop_all items (AList.delete item d) = Inr d'"
    by (auto simp: dict_pop_def split: if_splits)
  from Cons.IH [OF r] k show ?case
    by (auto simp: keys_delete)
qed

lemma setup_loop_keys:
  "setup_loop im acc deps = Inr d \<Longrightarrow>
     keys d = keys acc \<union>
       {casefold (dict_get im p p) | dep p v. dep \<in> set deps \<and> setup_parse dep = Inr (p, v)}"
proof (induction deps arbitrary: acc)
  case Nil
  then show ?case by simp
next
  case (Cons dep deps)
  from Cons.prems obtain p v where
    pv: "setup_parse dep = Inr (p, v)" and
    r: "setup_loop im (AList.update (casefold (dict_get im p p)) v acc) deps = Inr d"
    by (auto split: sum.splits)
  from Cons.IH [OF r] pv show ?case
    by (auto simp: keys_update)
qed

lemma get_versions_from_code_returns:
  "''tzdata'' \<in> keys (VERSIONS m) \<Longrightarrow>
     get_versions_from_code m =
       (Inr (code_comprehension (INSTALL_MAPPING m) [] (AList.delete ''tzdata'' (VERSIONS m))),
        m\<lparr>VERSIONS := AList.delete ''tzdata'' (VERSIONS m)\<rparr>)"
  by (simp add: get_versions_from_code_def EXCLUDE_DEPS_def dict_pop_def)

lemma get_versions_from_code_raises:
  "''tzdata'' \<notin> keys (VERSIONS m) \<Longrightarrow> get_versions_from_code m = (Inl KeyError, m)"
  by (simp add: get_versions_from_code_def EXCLUDE_DEPS_def dict_pop_def)

text \<open>
  Claim C8. \<open>get_versions_from_code\<close> pops \<open>tzdata\<close> from the table of the module itself:
  when the call returns, the table of the module has lost the entry, and whether the call
  returned or raised, a second call on the module as the first call left it raises
  \<open>KeyError\<close>.
\<close>

theorem get_versions_from_code_not_idempotent:
  assumes "get_versions_from_code m = (r, m')"
  shows "(\<forall>code. r = Inr code \<longrightarrow>
            ''tzdata'' \<in> keys (VERSIONS m)
          \<and> VERSIONS m' = AList.delete ''tzdata'' (VERSIONS m)
          \<and> VERSIONS m' \<noteq> VERSIONS m)
       \<and> ''tzdata'' \<notin> keys (VERSIONS m')
       \<and> get_versions_from_code m' = (Inl KeyError, m')"
proof (cases "''tzdata'' \<in> keys (VERSIONS m)")
  case True
  with assms have m': "m' = m\<lparr>VERSIONS := AList.delete ''tzdata'' (VERSIONS m)\<rparr>"
    by (simp add: get_versions_from_code_returns)
  then have n: "''tzdata'' \<notin> keys (VERSIONS m')"
    by (simp add: keys_delete)
  with True have "VERSIONS m' \<noteq> VERSIONS m" by auto
  with True m' n show ?thesis
    by (simp add: get_versions_from_code_raises)
next
  case False
  with assms have "r = Inl KeyError" and "m' = m"
    by (simp_all add: get_versions_from_code_raises)
  with False show ?thesis
    by (simp add: get_versions_from_code_raises)
qed

text \<open>The theorem at a module with three entries, \<open>tzdata\<close> among them.\<close>

theorem get_versions_from_code_not_idempotent_witness:
  "get_versions_from_code
     \<lparr>INSTALL_MAPPING = [(''bs4'', ''beautifulsoup4'')],
      VERSIONS = [(''bs4'', ''4.9.3''), (''pytest'', ''7.0.0''), (''tzdata'', ''2022a'')]\<rparr>
     = (Inr [(''beautifulsoup4'', ''4.9.3'')],
        \<lparr>INSTALL_MAPPING = [(''bs4'', ''beautifulsoup4'')],
         VERSIONS = [(''bs4'', ''4.9.3''), (''pytest'', ''7.0.0'')]\<rparr>)
   \<and> get_versions_from_code
     \<lparr>INSTALL_MAPPING = [(''bs4'', ''beautifulsoup4'')],
      VERSIONS = [(''bs4'', ''4.9.3''), (''pytest'', ''7.0.0'')]\<rparr>
     = (Inl KeyError,
        \<lparr>INSTALL_MAPPING = [(''bs4'', ''beautifulsoup4'')],
         VERSIONS = [(''bs4'', ''4.9.3''), (''pytest'', ''7.0.0'')]\<rparr>)"
proof -
  let ?m = "\<lparr>INSTALL_MAPPING = [(''bs4'', ''beautifulsoup4'')],
      VERSIONS = [(''bs4'', ''4.9.3''), (''pytest'', ''7.0.0''), (''tzdata'', ''2022a'')]\<rparr>"
  let ?m' = "\<lparr>INSTALL_MAPPING = [(''bs4'', ''beautifulsoup4'')],
      VERSIONS = [(''bs4'', ''4.9.3''), (''pytest'', ''7.0.0'')]\<rparr>"
  have c: "get_versions_from_code ?m = (Inr [(''beautifulsoup4'', ''4.9.3'')], ?m')"
    by code_simp
  from get_versions_from_code_not_idempotent [OF c] c show ?thesis
    by blast
qed

text \<open>
  Claim C9. When the loop over the entries of the manifest has built its dictionary and an
  excluded package is not a key of it, \<open>get_versions_from_setup\<close> raises \<open>KeyError\<close>. So
  whenever the function returns, every excluded package is the normalized name of an
  entry of \<open>all\<close> that is not an entry of \<open>test\<close>.
\<close>

theorem get_versions_from_setup_KeyError:
  "(\<forall>d. setup_loop install_map [] (setup_dependencies setup_optional test) = Inr d
        \<and> (\<exists>item\<in>set EXCLUDE_DEPS. item \<notin> keys d)
      \<longrightarrow> get_versions_from_setup install_map setup_optional test = Inl KeyError)
   \<and> (\<forall>r. get_versions_from_setup install_map setup_optional test = Inr r \<longrightarrow>
        (\<forall>item\<in>set EXCLUDE_DEPS.
           \<exists>dependency\<in>set (setup_dependencies setup_optional test). \<exists>package version.
              setup_parse dependency = Inr (package, version)
              \<and> casefold (dict_get install_map package package) = item))"
proof (intro conjI allI impI ballI)
  fix d
  assume "setup_loop install_map [] (setup_dependencies setup_optional test) = Inr d
        \<and> (\<exists>item\<in>set EXCLUDE_DEPS. item \<notin> keys d)"
  then show "get_versions_from_setup install_map setup_optional test = Inl KeyError"
    by (simp add: get_versions_from_setup_def pop_all_missing)
next
  fix r item
  assume r: "get_versions_from_setup install_map setup_optional test = Inr r"
    and item: "item \<in> set EXCLUDE_DEPS"
  from r obtain d where
    d: "setup_loop install_map [] (setup_dependencies setup_optional test) = Inr d" and
    p: "pop_all EXCLUDE_DEPS d = Inr r"
    by (auto simp: get_versions_from_setup_def split: sum.splits)
  from pop_all_returns [OF p] item have "item \<in> keys d" by auto
  with setup_loop_keys [OF d] show
    "\<exists>dependency\<in>set (setup_dependencies setup_optional test). \<exists>package version.
              setup_parse dependency = Inr (package, version)
              \<and> casefold (dict_get install_map package package) = item"
    by (auto simp: keys_def)
qed

text \<open>
  The theorem at a manifest that does not declare \<open>tzdata\<close>, and at one that does.
\<close>

theorem get_versions_from_setup_KeyError_witness:
  "setup_loop [] [] (setup_dependencies (nl # ''numpy>=1.20.3'') (nl # ''pytest>=7.0.0''))
      = Inr [(''numpy'', ''1.20.3'')]
   \<and> (\<exists>item\<in>set EXCLUDE_DEPS. item \<notin> keys [(''numpy'', ''1.20.3'')])
   \<and> get_versions_from_setup [] (nl # ''numpy>=1.20.3'') (nl # ''pytest>=7.0.0'') = Inl KeyError
   \<and> get_versions_from_setup [] (nl # ''numpy>=1.20.3'' @ nl # ''tzdata>=2022a'') (nl # ''pytest>=7.0.0'')
       = Inr [(''numpy'', ''1.20.3'')]
   \<and> (\<exists>dependency\<in>set (setup_dependencies (nl # ''numpy>=1.20.3'' @ nl # ''tzdata>=2022a'') (nl # ''pytest>=7.0.0'')).
         \<exists>package version. setup_parse dependency = Inr (package, version)
              \<and> casefold (dict_get [] package package) = ''tzdata'')"
proof -
  let ?a = "nl # ''numpy>=1.20.3''"
  let ?b = "nl # ''numpy>=1.20.3'' @ nl # ''tzdata>=2022a''"
  let ?t = "nl # ''pytest>=7.0.0''"
  have l: "setup_loop [] [] (setup_dependencies ?a ?t) = Inr [(''numpy'', ''1.20.3'')]"
    by code_simp
  have k: "\<exists>item\<in>set EXCLUDE_DEPS. item \<notin> keys [(''numpy'', ''1.20.3'')]"
    by (simp add: EXCLUDE_DEPS_def keys_def)
  have e: "get_versions_from_setup [] ?a ?t = Inl KeyError"
    using get_versions_from_setup_KeyError [of "[]" ?a ?t, THEN conjunct1] l k by blast
  have r: "get_versions_from_setup [] ?b ?t = Inr [(''numpy'', ''1.20.3'')]"
    by code_simp
  have i: "''tzdata'' \<in> set EXCLUDE_DEPS"
    by (simp add: EXCLUDE_DEPS_def)
  have "\<exists>dependency\<in>set (setup_dependencies ?b ?t).
         \<exists>package version. setup_parse dependency = Inr (package, version)
              \<and> casefold (dict_get [] package package) = ''tzdata''"
    using get_versions_from_setup_KeyError [of "[]" ?b ?t, THEN conjunct2] r i by blast
  with l k e r show ?thesis by (intro conjI)
qed

section \<open>Malformed lines of the CI file\<close>

lemma str_split_not_Nil: "str_split s sep \<noteq> []"
  by (induction s sep rule: str_split.induct) (simp_all add: Let_def)

lemma length_str_split: "length (str_split s sep) = Suc (str_count s sep)"
proof (induction s sep rule: str_split.induct)
  case (1 sep)
  show ?case by simp
next
  case (2 c cs sep)
  show ?case
  proof (cases "sep \<noteq> [] \<and> prefix sep (c # cs)")
    case True
    with 2 show ?thesis by simp
  next
    case False
    have "length ((c # hd (str_split cs sep)) # tl (str_split cs sep)) = length (str_split cs sep)"
      using str_split_not_Nil [of cs sep] by (cases "str_split cs sep") simp_all
    moreover have "str_split (c # cs) sep = (c # hd (str_split cs sep)) # tl (str_split cs sep)"
      using False by (auto simp: Let_def)
    moreover have "str_count (c # cs) sep = str_count cs sep"
      using False by auto
    moreover have "length (str_split cs sep) = Suc (str_count cs sep)"
      using False by (intro "2.IH"(2)) auto
    ultimately show ?thesis by simp
  qed
qed

lemma unpack2_ValueError: "unpack2 parts = Inl e \<longleftrightarrow> e = ValueError \<and> length parts \<noteq> 2"
  by (induction parts rule: unpack2.induct) auto

lemma ci_parse_ValueError:
  "ci_parse line = Inl ValueError \<longleftrightarrow> str_count (str_strip line) (ci_delimiter line) \<noteq> 1"
proof -
  have "ci_parse line = Inl ValueError \<longleftrightarrow>
          unpack2 (str_split (str_strip line) (ci_delimiter line)) = Inl ValueError"
    by (auto simp: ci_parse_def split: sum.splits)
  then show ?thesis
    by (simp add: unpack2_ValueError length_str_split)
qed

lemma ci_loop_append:
  "ci_loop st (xs @ ys) =
     (case ci_loop st xs of Inl e \<Rightarrow> Inl e | Inr st' \<Rightarrow> ci_loop st' ys)"
  by (induction xs arbitrary: st) (simp_all split: sum.splits)

text \<open>
  Claim C7. Take a line that the loop reaches after the required marker has been seen,
  that contains neither marker nor the pip marker and is not blank. Its delimiter is \<open>==\<close>
  when the line contains it, else \<open>=\<close>. The iteration raises \<open>ValueError\<close> exactly when
  the number of occurrences of the delimiter in the stripped line, counted as \<open>str.count\<close>
  counts them, is not one; and then \<open>get_versions_from_ci\<close> raises \<open>ValueError\<close> whatever
  lines follow: the line is not skipped and the reader does not recover.
\<close>

theorem ci_malformed_line_raises:
  assumes "ci_loop ci_init before = Inr st" and "seen_required st"
    and "\<not> str_in ''# required dependencies'' line"
    and "\<not> str_in ''# optional dependencies'' line"
    and "\<not> str_in ''- pip:'' line"
    and "str_strip line \<noteq> []"
  shows "(ci_line st line = Inl ValueError
            \<longleftrightarrow> str_count (str_strip line) (ci_delimiter line) \<noteq> 1)
       \<and> (str_count (str_strip line) (ci_delimiter line) \<noteq> 1
            \<longrightarrow> get_versions_from_ci (before @ line # after) = Inl ValueError)"
proof -
  have l: "ci_line st line = Inl ValueError \<longleftrightarrow> ci_parse line = Inl ValueError"
    using assms(2-6) by (auto simp: ci_line_def split: sum.splits)
  then have a: "ci_line st line = Inl ValueError
            \<longleftrightarrow> str_count (str_strip line) (ci_delimiter line) \<noteq> 1"
    by (simp add: ci_parse_ValueError)
  have "get_versions_from_ci (before @ line # after) = Inl ValueError"
    if "ci_line st line = Inl ValueError"
    using that assms(1) by (simp add: get_versions_from_ci_def ci_loop_append)
  with a show ?thesis by blast
qed

text \<open>
  The theorem after the required marker, at a line with no delimiter and at a line with
  two.
\<close>

theorem ci_malformed_line_raises_witness:
  "ci_loop ci_init [''# required dependencies''] =
      Inr \<lparr>seen_required = True, seen_optional = False, required_deps = [], optional_deps = []\<rparr>
   \<and> str_count (str_strip ''  - numpy'') (ci_delimiter ''  - numpy'') = 0
   \<and> get_versions_from_ci
        ([''# required dependencies''] @ ''  - numpy'' # [''  - python=3.8'']) = Inl ValueError
   \<and> str_count (str_strip ''  - numpy=1.20=3'') (ci_delimiter ''  - numpy=1.20=3'') = 2
   \<and> get_versions_from_ci
        ([''# required dependencies''] @ ''  - numpy=1.20=3'' # []) = Inl ValueError"
proof -
  let ?st = "\<lparr>seen_required = True, seen_optional = False, required_deps = [], optional_deps = []\<rparr>"
  have b: "ci_loop ci_init [''# required dependencies''] = Inr ?st"
    by code_simp
  have s: "seen_required ?st" by simp
  have c0: "str_count (str_strip ''  - numpy'') (ci_delimiter ''  - numpy'') = 0"
    by code_simp
  have c2: "str_count (str_strip ''  - numpy=1.20=3'') (ci_delimiter ''  - numpy=1.20=3'') = 2"
    by code_simp
  have h0: "\<not> str_in ''# required dependencies'' ''  - numpy''"
    "\<not> str_in ''# optional dependencies'' ''  - numpy''"
    "\<not> str_in ''- pip:'' ''  - numpy''" "str_strip ''  - numpy'' \<noteq> []"
    by code_simp+
  have h2: "\<not> str_in ''# required dependencies'' ''  - numpy=1.20=3''"
    "\<not> str_in ''# optional dependencies'' ''  - numpy=1.20=3''"
    "\<not> str_in ''- pip:'' ''  - numpy=1.20=3''" "str_strip ''  - numpy=1.20=3'' \<noteq> []"
    by code_simp+
  have r0: "get_versions_from_ci
        ([''# required dependencies''] @ ''  - numpy'' # [''  - python=3.8'']) = Inl ValueError"
    using ci_malformed_line_raises [OF b s h0, of "[''  - python=3.8'']"] c0 by simp
  have r2: "get_versions_from_ci
        ([''# required dependencies''] @ ''  - numpy=1.20=3'' # []) = Inl ValueError"
    using ci_malformed_line_raises [OF b s h2, of "[]"] c2 by simp
  from b c0 r0 c2 r2 show ?thesis by (intro conjI)
qed

section \<open>The CI reader, section by section\<close>

lemma store_entries_Nil: "store_entries [] d = d"
  by (simp add: store_entries_def)

lemma store_entries_Cons:
  "store_entries ((k, v) # entries) d = store_entries entries (AList.update k v d)"
  by (simp add: store_entries_def)

lemma ci_loop_off:
  "\<not> seen_required st \<Longrightarrow> \<forall>l\<in>set content. \<not> str_in ''# required dependencies'' l \<Longrightarrow>
     ci_loop st content =
       Inr (st\<lparr>seen_optional :=
              seen_optional st \<or> (\<exists>l\<in>set content. str_in ''# optional dependencies'' l)\<rparr>)"
proof (induction content arbitrary: st)
  case Nil
  then show ?case by simp
next
  case (Cons line content)
  show ?case
  proof (cases "str_in ''# optional dependencies'' line")
    case True
    with Cons.prems have "ci_line st line = Inr (st\<lparr>seen_optional := True\<rparr>)"
      by (simp add: ci_line_def)
    moreover have "ci_loop (st\<lparr>seen_optional := True\<rparr>) content = Inr (st\<lparr>seen_optional := True\<rparr>)"
      using Cons.prems Cons.IH [of "st\<lparr>seen_optional := True\<rparr>"] by simp
    ultimately show ?thesis using True by simp
  next
    case False
    with Cons.prems have "ci_line st line = Inr st"
      by (simp add: ci_line_def)
    then show ?thesis
      using Cons.prems Cons.IH [of st] False by simp
  qed
qed

lemma ci_loop_optional:
  "seen_required st \<Longrightarrow> seen_optional st \<Longrightarrow>
     ci_loop st content =
       (case section_entries content of
          Inl e \<Rightarrow> Inl e
        | Inr entries \<Rightarrow> Inr (st\<lparr>optional_deps := store_entries entries (optional_deps st)\<rparr>))"
proof (induction content arbitrary: st)
  case Nil
  then show ?case by (simp add: store_entries_Nil)
next
  case (Cons line content)
  have flags: "st\<lparr>seen_required := True\<rparr> = st" "st\<lparr>seen_optional := True\<rparr> = st"
    using Cons.prems by simp_all
  show ?case
  proof (cases "str_in ''# required dependencies'' line \<or> str_in ''# optional dependencies'' line
         \<or> str_in ''- pip:'' line \<or> str_strip line = []")
    case True
    then have "ci_line st line = Inr st"
      using flags by (auto simp: ci_line_def)
    with True Cons.IH [OF Cons.prems] show ?thesis by simp
  next
    case False
    show ?thesis
    proof (cases "ci_parse line")
      case (Inl e)
      with False Cons.prems show ?thesis by (simp add: ci_line_def)
    next
      case (Inr pv)
      obtain package version where pv: "pv = (package, version)" by (cases pv)
      show ?thesis
      proof (cases "package \<in> set EXCLUDE_DEPS")
        case True
        with False Inr pv Cons.prems have "ci_line st line = Inr st"
          by (simp add: ci_line_def)
        with False Inr pv True Cons.IH [OF Cons.prems] show ?thesis
          by (simp split: sum.splits)
      next
        case nex: False
        let ?st = "st\<lparr>optional_deps := AList.update (casefold package) version (optional_deps st)\<rparr>"
        from False Inr pv nex Cons.prems have "ci_line st line = Inr ?st"
          by (simp add: ci_line_def)
        moreover have "seen_required ?st" "seen_optional ?st"
          using Cons.prems by simp_all
        ultimately show ?thesis
          using False Inr pv nex Cons.IH [of ?st]
          by (simp add: store_entries_Cons split: sum.splits)
      qed
    qed
  qed
qed

lemma ci_loop_required:
  "seen_required st \<Longrightarrow> \<not> seen_optional st \<Longrightarrow>
   \<forall>l\<in>set content. str_in ''# optional dependencies'' l \<longrightarrow> str_in ''# required dependencies'' l \<Longrightarrow>
     ci_loop st content =
       (case section_entries content of
          Inl e \<Rightarrow> Inl e
        | Inr entries \<Rightarrow> Inr (st\<lparr>required_deps := store_entries entries (required_deps st)\<rparr>))"
proof (induction content arbitrary: st)
  case Nil
  then show ?case by (simp add: store_entries_Nil)
next
  case (Cons line content)
  have flags: "st\<lparr>seen_required := True\<rparr> = st"
    using Cons.prems by simp
  have rest: "\<forall>l\<in>set content. str_in ''# optional dependencies'' l \<longrightarrow> str_in ''# required dependencies'' l"
    and line: "str_in ''# optional dependencies'' line \<longrightarrow> str_in ''# required dependencies'' line"
    using Cons.prems(3) by simp_all
  show ?case
  proof (cases "str_in ''# required dependencies'' line \<or> str_in ''# optional dependencies'' line
         \<or> str_in ''- pip:'' line \<or> str_strip line = []")
    case True
    then have "ci_line st line = Inr st"
      using flags line by (auto simp: ci_line_def)
    with True Cons.IH [OF Cons.prems(1,2) rest] show ?thesis by simp
  next
    case False
    show ?thesis
    proof (cases "ci_parse line")
      case (Inl e)
      with False Cons.prems show ?thesis by (simp add: ci_line_def)
    next
      case (Inr pv)
      obtain package version where pv: "pv = (package, version)" by (cases pv)
      show ?thesis
      proof (cases "package \<in> set EXCLUDE_DEPS")
        case True
        with False Inr pv Cons.prems have "ci_line st line = Inr st"
          by (simp add: ci_line_def)
        with False Inr pv True Cons.IH [OF Cons.prems(1,2) rest] show ?thesis
          by (simp split: sum.splits)
      next
        case nex: False
        let ?st = "st\<lparr>required_deps := AList.update (casefold package) version (required_deps st)\<rparr>"
        from False Inr pv nex Cons.prems have "ci_line st line = Inr ?st"
          by (simp add: ci_line_def)
        moreover have "seen_required ?st" "\<not> seen_optional ?st"
          using Cons.prems by simp_all
        ultimately show ?thesis
          using False Inr pv nex Cons.IH [of ?st] rest
          by (simp add: store_entries_Cons split: sum.splits)
      qed
    qed
  qed
qed

lemma str_in_iff: "str_in sub s \<longleftrightarrow> (\<exists>p q. s = p @ sub @ q)"
proof (induction s)
  case Nil
  show ?case by auto
next
  case (Cons c cs)
  show ?case
  proof
    assume "str_in sub (c # cs)"
    then consider "prefix sub (c # cs)" | "str_in sub cs" by auto
    then show "\<exists>p q. c # cs = p @ sub @ q"
    proof cases
      case 1
      then obtain q where "c # cs = sub @ q" by (auto simp: prefix_def)
      then have "c # cs = [] @ sub @ q" by simp
      then show ?thesis by blast
    next
      case 2
      with Cons.IH obtain p q where "cs = p @ sub @ q" by blast
      then have "c # cs = (c # p) @ sub @ q" by simp
      then show ?thesis by blast
    qed
  next
    assume "\<exists>p q. c # cs = p @ sub @ q"
    then obtain p q where pq: "c # cs = p @ sub @ q" by blast
    show "str_in sub (c # cs)"
    proof (cases p)
      case Nil
      with pq have "prefix sub (c # cs)" by (simp add: prefix_def)
      then show ?thesis by simp
    next
      case (Cons a p')
      with pq have "cs = p' @ sub @ q" by simp
      with Cons.IH have "str_in sub cs" by blast
      then show ?thesis by simp
    qed
  qed
qed

lemma str_split_absent:
  "sep \<noteq> [] \<Longrightarrow> hd sep \<notin> set s \<Longrightarrow> str_split s sep = [s]"
proof (induction s)
  case Nil
  show ?case by simp
next
  case (Cons c cs)
  from Cons.prems have "\<not> prefix sep (c # cs)"
    by (cases sep) auto
  moreover from Cons have "str_split cs sep = [cs]" by simp
  ultimately show ?case by (simp add: Let_def)
qed

lemma str_split_once:
  "sep \<noteq> [] \<Longrightarrow> hd sep \<notin> set a \<Longrightarrow> hd sep \<notin> set b \<Longrightarrow>
     str_split (a @ sep @ b) sep = [a, b]"
proof (induction a)
  case Nil
  then obtain c cs where sep: "sep = c # cs" by (cases sep) auto
  have "str_split (sep @ b) sep = [] # str_split (drop (length sep) (sep @ b)) sep"
    unfolding sep by simp
  with Nil show ?case by (simp add: str_split_absent)
next
  case (Cons c cs)
  from Cons.prems have "\<not> prefix sep (c # cs @ sep @ b)"
    by (cases sep) auto
  moreover from Cons have "str_split (cs @ sep @ b) sep = [cs, b]" by simp
  ultimately show ?case by (simp add: Let_def)
qed

lemma isspace_not_eq: "isspace c \<Longrightarrow> c \<noteq> CHR ''=''"
  by (auto simp: isspace_def)

lemma str_strip_padded:
  assumes "\<forall>c\<in>set indent. isspace c" and "\<forall>c\<in>set trailing. isspace c"
    and "body \<noteq> []" and "\<not> isspace (hd body)" and "\<not> isspace (last body)"
  shows "str_strip (indent @ body @ trailing) = body"
proof -
  have "dropWhile isspace (indent @ body @ trailing) = dropWhile isspace (body @ trailing)"
    by (rule dropWhile_append2) (use assms(1) in auto)
  also have "\<dots> = body @ trailing"
    using assms(3,4) by (cases body) simp_all
  finally have 1: "dropWhile isspace (indent @ body @ trailing) = body @ trailing" .
  have "dropWhile isspace (rev trailing @ rev body) = dropWhile isspace (rev body)"
    by (rule dropWhile_append2) (use assms(2) in auto)
  also have "\<dots> = rev body"
    using assms(3,5) by (cases "rev body") (auto simp: last_rev hd_rev)
  finally show ?thesis by (simp add: str_strip_def 1)
qed

lemma filter_absent: "x \<notin> set xs \<Longrightarrow> filter (\<lambda>c. c = x) xs = []"
  by (induction xs) auto

lemma ci_parse_declaration:
  assumes indent: "\<forall>c\<in>set indent. isspace c" and trailing: "\<forall>c\<in>set trailing. isspace c"
    and name: "CHR ''='' \<notin> set name" and version: "CHR ''='' \<notin> set version"
    and last: "version \<noteq> []" "\<not> isspace (last version)"
    and d: "d = ''=='' \<or> d = ''=''"
  shows "ci_parse (indent @ ''- '' @ name @ d @ version @ trailing) = Inr (name, version)"
proof -
  let ?line = "indent @ ''- '' @ name @ d @ version @ trailing"
  let ?body = "''- '' @ name @ d @ version"
  have ni: "CHR ''='' \<notin> set indent" and nt: "CHR ''='' \<notin> set trailing"
    using indent trailing isspace_not_eq by blast+
  have "\<not> isspace (hd ?body)" by (simp add: isspace_def)
  moreover have "\<not> isspace (last ?body)" using last by simp
  ultimately have strip: "str_strip ?line = ?body"
    using str_strip_padded [OF indent trailing, of ?body] by simp
  have delim: "ci_delimiter ?line = d"
  proof (cases "d = ''==''")
    case True
    have "?line = (indent @ ''- '' @ name) @ ''=='' @ (version @ trailing)"
      using True by simp
    then have "str_in ''=='' ?line" unfolding str_in_iff by blast
    with True show ?thesis by (simp add: ci_delimiter_def)
  next
    case False
    with d have d1: "d = ''=''" by simp
    have "\<not> str_in ''=='' ?line"
    proof
      assume "str_in ''=='' ?line"
      then obtain p q where eq: "?line = p @ ''=='' @ q" unfolding str_in_iff by blast
      have one: "filter (\<lambda>c. c = CHR ''='') ?line = ''=''"
        using ni nt name version d1 by (simp add: filter_absent)
      have "length (filter (\<lambda>c. c = CHR ''='') ?line) = 1"
        by (simp only: one) simp
      then have "length (filter (\<lambda>c. c = CHR ''='') (p @ ''=='' @ q)) = 1"
        by (simp only: eq)
      then show False by simp
    qed
    with d1 show ?thesis by (simp add: ci_delimiter_def)
  qed
  have "CHR ''='' \<notin> set (''- '' @ name)" using name by simp
  with version d have "str_split ((''- '' @ name) @ d @ version) d = [''- '' @ name, version]"
    by (intro str_split_once) auto
  then have "str_split ?body d = [''- '' @ name, version]" by simp
  with strip delim show ?thesis by (simp add: ci_parse_def)
qed


text \<open>
  Claim C5 says that the lines are parsed while the reader is in required or in optional
  mode. After the optional marker alone the reader does not parse: the declaration below
  is not blank, is no pip marker and splits into a name and a version, yet both mappings
  stay empty.
\<close>

theorem ci_optional_marker_alone:
  "get_versions_from_ci [''# optional dependencies\<newline>'', ''  - numpy=1.20.3\<newline>''] = Inr ([], [])
   \<and> str_in ''# optional dependencies'' ''# optional dependencies\<newline>''
   \<and> \<not> str_in ''- pip:'' ''  - numpy=1.20.3\<newline>''
   \<and> str_strip ''  - numpy=1.20.3\<newline>'' \<noteq> []
   \<and> ci_parse ''  - numpy=1.20.3\<newline>'' = Inr (''numpy'', ''1.20.3'')"
  by code_simp

text \<open>
  Claim C5, amended. Parsing starts at the required marker, and the optional marker only
  moves the parsed entries from the required mapping to the optional mapping:
  \<^item> as long as no line contains the required marker, nothing is parsed, whether or not
    the optional marker occurs;
  \<^item> when the required marker occurs and the optional marker does not, the required
    mapping holds the entries of the lines after the required marker and the optional
    mapping is empty;
  \<^item> when the required marker comes first, the required mapping holds the entries of
    the lines between the two markers and the optional mapping those of the lines after
    the optional marker;
  \<^item> when the optional marker comes before the required marker, all the entries after
    the required marker go to the optional mapping.
  The entries of a section are those of \<open>section_entries\<close>: every line that is not
  blank and contains neither the pip marker nor a marker comment is split on \<open>==\<close> when it
  contains it, else on \<open>=\<close>, into exactly two parts (\<open>ValueError\<close> otherwise), the first
  two characters of the name are dropped, a package of the exclusion set is left out, and
  the name is case-folded. In particular a line \<open>- name==version\<close> or \<open>- name=version\<close>,
  indented and followed by white space, where neither the name nor the version contains
  \<open>=\<close>, parses to that name and that version.
\<close>

theorem get_versions_from_ci_sections:
  "((\<forall>l\<in>set before. \<not> str_in ''# required dependencies'' l)
      \<longrightarrow> get_versions_from_ci before = Inr ([], []))
   \<and> ((\<forall>l\<in>set before. \<not> str_in ''# required dependencies'' l
                          \<and> \<not> str_in ''# optional dependencies'' l)
        \<and> str_in ''# required dependencies'' rm
        \<and> (\<forall>l\<in>set mid. str_in ''# optional dependencies'' l
                          \<longrightarrow> str_in ''# required dependencies'' l)
      \<longrightarrow> get_versions_from_ci (before @ rm # mid) =
            (case section_entries mid of
               Inl e \<Rightarrow> Inl e
             | Inr required_entries \<Rightarrow> Inr (dict_of_entries required_entries, [])))
   \<and> ((\<forall>l\<in>set before. \<not> str_in ''# required dependencies'' l
                          \<and> \<not> str_in ''# optional dependencies'' l)
        \<and> str_in ''# required dependencies'' rm
        \<and> (\<forall>l\<in>set mid. str_in ''# optional dependencies'' l
                          \<longrightarrow> str_in ''# required dependencies'' l)
        \<and> \<not> str_in ''# required dependencies'' om \<and> str_in ''# optional dependencies'' om
      \<longrightarrow> get_versions_from_ci (before @ rm # mid @ om # after) =
            (case section_entries mid of
               Inl e \<Rightarrow> Inl e
             | Inr required_entries \<Rightarrow>
                 (case section_entries after of
                    Inl e \<Rightarrow> Inl e
                  | Inr optional_entries \<Rightarrow> Inr (dict_of_entries required_entries, dict_of_entries optional_entries))))
   \<and> ((\<forall>l\<in>set before. \<not> str_in ''# required dependencies'' l)
        \<and> (\<exists>l\<in>set before. str_in ''# optional dependencies'' l)
        \<and> str_in ''# required dependencies'' rm
      \<longrightarrow> get_versions_from_ci (before @ rm # after) =
            (case section_entries after of
               Inl e \<Rightarrow> Inl e
             | Inr optional_entries \<Rightarrow> Inr ([], dict_of_entries optional_entries)))
   \<and> ((\<forall>c\<in>set indent. isspace c) \<and> (\<forall>c\<in>set trailing. isspace c)
        \<and> CHR ''='' \<notin> set name \<and> CHR ''='' \<notin> set version
        \<and> version \<noteq> [] \<and> \<not> isspace (last version)
        \<and> (d = ''=='' \<or> d = ''='')
      \<longrightarrow> ci_parse (indent @ ''- '' @ name @ d @ version @ trailing) = Inr (name, version))"
proof (intro conjI impI)
  assume "\<forall>l\<in>set before. \<not> str_in ''# required dependencies'' l"
  then have "ci_loop ci_init before =
      Inr (ci_init\<lparr>seen_optional := seen_optional ci_init
                      \<or> (\<exists>l\<in>set before. str_in ''# optional dependencies'' l)\<rparr>)"
    by (intro ci_loop_off) (simp_all add: ci_init_def)
  then show "get_versions_from_ci before = Inr ([], [])"
    by (simp add: get_versions_from_ci_def ci_init_def)
next
  assume h: "(\<forall>l\<in>set before. \<not> str_in ''# required dependencies'' l
                          \<and> \<not> str_in ''# optional dependencies'' l)
        \<and> str_in ''# required dependencies'' rm
        \<and> (\<forall>l\<in>set mid. str_in ''# optional dependencies'' l
                          \<longrightarrow> str_in ''# required dependencies'' l)"
  let ?s1 = "\<lparr>seen_required = True, seen_optional = False, required_deps = [], optional_deps = []\<rparr>"
  have "ci_loop ci_init before =
      Inr (ci_init\<lparr>seen_optional := seen_optional ci_init
                      \<or> (\<exists>l\<in>set before. str_in ''# optional dependencies'' l)\<rparr>)"
    using h by (intro ci_loop_off) (simp_all add: ci_init_def)
  then have b: "ci_loop ci_init before = Inr ci_init"
    using h by (simp add: ci_init_def)
  have r: "ci_line ci_init rm = Inr ?s1"
    using h by (simp add: ci_line_def ci_init_def)
  have m: "ci_loop ?s1 mid =
       (case section_entries mid of
          Inl e \<Rightarrow> Inl e
        | Inr entries \<Rightarrow>
            Inr \<lparr>seen_required = True, seen_optional = False,
                 required_deps = store_entries entries [], optional_deps = []\<rparr>)"
    using h ci_loop_required [of ?s1 mid] by (simp split: sum.splits)
  show "get_versions_from_ci (before @ rm # mid) =
            (case section_entries mid of
               Inl e \<Rightarrow> Inl e
             | Inr required_entries \<Rightarrow> Inr (dict_of_entries required_entries, []))"
    by (simp add: get_versions_from_ci_def ci_loop_append b r m dict_of_entries_def
          split: sum.splits)
next
  assume h: "(\<forall>l\<in>set before. \<not> str_in ''# required dependencies'' l
                          \<and> \<not> str_in ''# optional dependencies'' l)
        \<and> str_in ''# required dependencies'' rm
        \<and> (\<forall>l\<in>set mid. str_in ''# optional dependencies'' l
                          \<longrightarrow> str_in ''# required dependencies'' l)
        \<and> \<not> str_in ''# required dependencies'' om \<and> str_in ''# optional dependencies'' om"
  let ?s1 = "\<lparr>seen_required = True, seen_optional = False, required_deps = [], optional_deps = []\<rparr>"
  have "ci_loop ci_init before =
      Inr (ci_init\<lparr>seen_optional := seen_optional ci_init
                      \<or> (\<exists>l\<in>set before. str_in ''# optional dependencies'' l)\<rparr>)"
    using h by (intro ci_loop_off) (simp_all add: ci_init_def)
  then have b: "ci_loop ci_init before = Inr ci_init"
    using h by (simp add: ci_init_def)
  have r: "ci_line ci_init rm = Inr ?s1"
    using h by (simp add: ci_line_def ci_init_def)
  have m: "ci_loop ?s1 mid =
       (case section_entries mid of
          Inl e \<Rightarrow> Inl e
        | Inr entries \<Rightarrow>
            Inr \<lparr>seen_required = True, seen_optional = False,
                 required_deps = store_entries entries [], optional_deps = []\<rparr>)"
    using h ci_loop_required [of ?s1 mid] by (simp split: sum.splits)
  have o: "ci_line \<lparr>seen_required = True, seen_optional = False,
                    required_deps = d, optional_deps = []\<rparr> om
             = Inr \<lparr>seen_required = True, seen_optional = True,
                    required_deps = d, optional_deps = []\<rparr>" for d
    using h by (simp add: ci_line_def)
  have a: "ci_loop \<lparr>seen_required = True, seen_optional = True,
                    required_deps = d, optional_deps = []\<rparr> after =
       (case section_entries after of
          Inl e \<Rightarrow> Inl e
        | Inr entries \<Rightarrow>
            Inr \<lparr>seen_required = True, seen_optional = True,
                 required_deps = d, optional_deps = store_entries entries []\<rparr>)" for d
    using ci_loop_optional [of "\<lparr>seen_required = True, seen_optional = True,
                    required_deps = d, optional_deps = []\<rparr>" after]
    by (simp split: sum.splits)
  show "get_versions_from_ci (before @ rm # mid @ om # after) =
            (case section_entries mid of
               Inl e \<Rightarrow> Inl e
             | Inr required_entries \<Rightarrow>
                 (case section_entries after of
                    Inl e \<Rightarrow> Inl e
                  | Inr optional_entries \<Rightarrow> Inr (dict_of_entries required_entries, dict_of_entries optional_entries)))"
    by (simp add: get_versions_from_ci_def ci_loop_append b r m o a dict_of_entries_def
          split: sum.splits)
next
  assume h: "(\<forall>l\<in>set before. \<not> str_in ''# required dependencies'' l)
        \<and> (\<exists>l\<in>set before. str_in ''# optional dependencies'' l)
        \<and> str_in ''# required dependencies'' rm"
  let ?s0 = "\<lparr>seen_required = False, seen_optional = True, required_deps = [], optional_deps = []\<rparr>"
  let ?s1 = "\<lparr>seen_required = True, seen_optional = True, required_deps = [], optional_deps = []\<rparr>"
  have "ci_loop ci_init before =
      Inr (ci_init\<lparr>seen_optional := seen_optional ci_init
                      \<or> (\<exists>l\<in>set before. str_in ''# optional dependencies'' l)\<rparr>)"
    using h by (intro ci_loop_off) (simp_all add: ci_init_def)
  then have b: "ci_loop ci_init before = Inr ?s0"
    using h by (simp add: ci_init_def)
  have r: "ci_line ?s0 rm = Inr ?s1"
    using h by (simp add: ci_line_def)
  have a: "ci_loop ?s1 after =
       (case section_entries after of
          Inl e \<Rightarrow> Inl e
        | Inr entries \<Rightarrow>
            Inr \<lparr>seen_required = True, seen_optional = True,
                 required_deps = [], optional_deps = store_entries entries []\<rparr>)"
    using ci_loop_optional [of ?s1 after] by (simp split: sum.splits)
  show "get_versions_from_ci (before @ rm # after) =
            (case section_entries after of
               Inl e \<Rightarrow> Inl e
             | Inr optional_entries \<Rightarrow> Inr ([], dict_of_entries optional_entries))"
    by (simp add: get_versions_from_ci_def ci_loop_append b r a dict_of_entries_def
          split: sum.splits)
next
  assume "(\<forall>c\<in>set indent. isspace c) \<and> (\<forall>c\<in>set trailing. isspace c)
        \<and> CHR ''='' \<notin> set name \<and> CHR ''='' \<notin> set version
        \<and> version \<noteq> [] \<and> \<not> isspace (last version)
        \<and> (d = ''=='' \<or> d = ''='')"
  then show "ci_parse (indent @ ''- '' @ name @ d @ version @ trailing) = Inr (name, version)"
    by (intro ci_parse_declaration) simp_all
qed

text \<open>
  The theorem at a file with the optional marker alone, at a file with both markers in
  order, at a file with the optional marker first, at the declaration
  \<open>- NumExpr==2.7.3\<close>, and at a file with the required marker alone.
\<close>

theorem get_versions_from_ci_sections_witness:
  "get_versions_from_ci [''dependencies:\<newline>'', ''  # optional dependencies\<newline>'',
                         ''  - numpy=1.20.3\<newline>''] = Inr ([], [])
   \<and> get_versions_from_ci
        ([''name: pandas-dev\<newline>'', ''dependencies:\<newline>'']
         @ ''  # required dependencies\<newline>''
         # [''  - python=3.8\<newline>'', ''\<newline>'', ''  - pytz=2020.1\<newline>'']
         @ ''  # optional dependencies\<newline>''
         # [''  - beautifulsoup4=4.9.3\<newline>'', ''  - tzdata=2022a\<newline>'',
            ''  - pip:\<newline>'', ''  - NumExpr==2.7.3\<newline>''])
       = Inr ([(''python'', ''3.8''), (''pytz'', ''2020.1'')],
              [(''beautifulsoup4'', ''4.9.3''), (''numexpr'', ''2.7.3'')])
   \<and> get_versions_from_ci
        ([''  # optional dependencies\<newline>''] @ ''  # required dependencies\<newline>''
         # [''  - python=3.8\<newline>''])
       = Inr ([], [(''python'', ''3.8'')])
   \<and> ci_parse ''  - NumExpr==2.7.3\<newline>'' = Inr (''NumExpr'', ''2.7.3'')
   \<and> get_versions_from_ci
        ([''name: pandas-dev\<newline>'', ''dependencies:\<newline>'']
         @ ''  # required dependencies\<newline>''
         # [''  - python=3.8\<newline>'', ''\<newline>'', ''  - pytz=2020.1\<newline>''])
       = Inr ([(''python'', ''3.8''), (''pytz'', ''2020.1'')], [])"
proof -
  let ?b1 = "[''dependencies:\<newline>'', ''  # optional dependencies\<newline>'',
              ''  - numpy=1.20.3\<newline>'']"
  let ?b2 = "[''name: pandas-dev\<newline>'', ''dependencies:\<newline>'']"
  let ?rm = "''  # required dependencies\<newline>''"
  let ?mid = "[''  - python=3.8\<newline>'', ''\<newline>'', ''  - pytz=2020.1\<newline>'']"
  let ?om = "''  # optional dependencies\<newline>''"
  let ?after = "[''  - beautifulsoup4=4.9.3\<newline>'', ''  - tzdata=2022a\<newline>'',
            ''  - pip:\<newline>'', ''  - NumExpr==2.7.3\<newline>'']"
  let ?after3 = "[''  - python=3.8\<newline>'']"
  have h1: "\<forall>l\<in>set ?b1. \<not> str_in ''# required dependencies'' l"
    by code_simp
  have r1: "get_versions_from_ci ?b1 = Inr ([], [])"
    using get_versions_from_ci_sections [where before = ?b1, THEN conjunct1] h1 by (rule mp)
  have h2: "(\<forall>l\<in>set ?b2. \<not> str_in ''# required dependencies'' l
                          \<and> \<not> str_in ''# optional dependencies'' l)
        \<and> str_in ''# required dependencies'' ?rm
        \<and> (\<forall>l\<in>set ?mid. str_in ''# optional dependencies'' l
                          \<longrightarrow> str_in ''# required dependencies'' l)
        \<and> \<not> str_in ''# required dependencies'' ?om \<and> str_in ''# optional dependencies'' ?om"
    by code_simp
  have e2: "(case section_entries ?mid of
               Inl e \<Rightarrow> Inl e
             | Inr required_entries \<Rightarrow>
                 (case section_entries ?after of
                    Inl e \<Rightarrow> Inl e
                  | Inr optional_entries \<Rightarrow>
                      Inr (dict_of_entries required_entries, dict_of_entries optional_entries)))
            = Inr ([(''python'', ''3.8''), (''pytz'', ''2020.1'')],
                   [(''beautifulsoup4'', ''4.9.3''), (''numexpr'', ''2.7.3'')])"
    by code_simp
  have "get_versions_from_ci (?b2 @ ?rm # ?mid @ ?om # ?after) =
            (case section_entries ?mid of
               Inl e \<Rightarrow> Inl e
             | Inr required_entries \<Rightarrow>
                 (case section_entries ?after of
                    Inl e \<Rightarrow> Inl e
                  | Inr optional_entries \<Rightarrow>
                      Inr (dict_of_entries required_entries, dict_of_entries optional_entries)))"
    using get_versions_from_ci_sections
            [where before = ?b2 and rm = ?rm and mid = ?mid and om = ?om and after = ?after,
             THEN conjunct2, THEN conjunct2, THEN conjunct1] h2
    by (rule mp)
  then have r2: "get_versions_from_ci (?b2 @ ?rm # ?mid @ ?om # ?after)
       = Inr ([(''python'', ''3.8''), (''pytz'', ''2020.1'')],
              [(''beautifulsoup4'', ''4.9.3''), (''numexpr'', ''2.7.3'')])"
    by (simp only: e2)
  have h3: "(\<forall>l\<in>set [?om]. \<not> str_in ''# required dependencies'' l)
        \<and> (\<exists>l\<in>set [?om]. str_in ''# optional dependencies'' l)
        \<and> str_in ''# required dependencies'' ?rm"
    by code_simp
  have e3: "(case section_entries ?after3 of
               Inl e \<Rightarrow> Inl e
             | Inr optional_entries \<Rightarrow> Inr ([] :: dict, dict_of_entries optional_entries))
            = Inr ([], [(''python'', ''3.8'')])"
    by code_simp
  have "get_versions_from_ci ([?om] @ ?rm # ?after3) =
            (case section_entries ?after3 of
               Inl e \<Rightarrow> Inl e
             | Inr optional_entries \<Rightarrow> Inr ([], dict_of_entries optional_entries))"
    using get_versions_from_ci_sections
            [where before = "[?om]" and rm = ?rm and after = ?after3,
             THEN conjunct2, THEN conjunct2, THEN conjunct2, THEN conjunct1] h3
    by (rule mp)
  then have r3: "get_versions_from_ci ([?om] @ ?rm # ?after3) = Inr ([], [(''python'', ''3.8'')])"
    by (simp only: e3)
  have h4: "(\<forall>c\<in>set ''  ''. isspace c) \<and> (\<forall>c\<in>set ''\<newline>''. isspace c)
        \<and> CHR ''='' \<notin> set ''NumExpr'' \<and> CHR ''='' \<notin> set ''2.7.3''
        \<and> ''2.7.3'' \<noteq> [] \<and> \<not> isspace (last ''2.7.3'')
        \<and> (''=='' = ''=='' \<or> ''=='' = ''='')"
    by code_simp
  have "ci_parse (''  '' @ ''- '' @ ''NumExpr'' @ ''=='' @ ''2.7.3'' @ ''\<newline>'')
          = Inr (''NumExpr'', ''2.7.3'')"
    using get_versions_from_ci_sections
            [where indent = "''  ''" and trailing = "''\<newline>''" and name = "''NumExpr''"
               and version = "''2.7.3''" and d = "''==''",
             THEN conjunct2, THEN conjunct2, THEN conjunct2, THEN conjunct2] h4
    by (rule mp)
  then have r4: "ci_parse ''  - NumExpr==2.7.3\<newline>'' = Inr (''NumExpr'', ''2.7.3'')"
    by simp
  have h5: "(\<forall>l\<in>set ?b2. \<not> str_in ''# required dependencies'' l
                          \<and> \<not> str_in ''# optional dependencies'' l)
        \<and> str_in ''# required dependencies'' ?rm
        \<and> (\<forall>l\<in>set ?mid. str_in ''# optional dependencies'' l
                          \<longrightarrow> str_in ''# required dependencies'' l)"
    by code_simp
  have e5: "(case section_entries ?mid of
               Inl e \<Rightarrow> Inl e
             | Inr required_entries \<Rightarrow> Inr (dict_of_entries required_entries, [] :: dict))
            = Inr ([(''python'', ''3.8''), (''pytz'', ''2020.1'')], [])"
    by code_simp
  have "get_versions_from_ci (?b2 @ ?rm # ?mid) =
            (case section_entries ?mid of
               Inl e \<Rightarrow> Inl e
             | Inr required_entries \<Rightarrow> Inr (dict_of_entries required_entries, []))"
    using get_versions_from_ci_sections
            [where before = ?b2 and rm = ?rm and mid = ?mid, THEN conjunct2, THEN conjunct1] h5
    by (rule mp)
  then have r5: "get_versions_from_ci (?b2 @ ?rm # ?mid)
       = Inr ([(''python'', ''3.8''), (''pytz'', ''2020.1'')], [])"
    by (simp only: e5)
  from r1 r2 r3 r4 r5 show ?thesis by (intro conjI)
qed

section \<open>The required section and the outcome of the program\<close>

lemma ci_line_error: "ci_line st line = Inl e \<Longrightarrow> e = ValueError"
  by (auto simp: ci_line_def ci_parse_def unpack2_ValueError split: if_splits sum.splits)

lemma ci_loop_error: "ci_loop st content = Inl e \<Longrightarrow> e = ValueError"
  by (induction content arbitrary: st) (auto split: sum.splits dest: ci_line_error)

lemma ci_line_before_optional:
  assumes "\<not> seen_optional st"
    and "str_in ''# optional dependencies'' line \<longrightarrow> str_in ''# required dependencies'' line"
    and "ci_line st line = Inr st'"
  shows "\<not> seen_optional st' \<and> optional_deps st' = optional_deps st
         \<and> (seen_required st \<longrightarrow> seen_required st')"
  using assms by (auto simp: ci_line_def split: if_splits sum.splits)

lemma ci_loop_before_optional:
  "\<not> seen_optional st \<Longrightarrow>
   \<forall>l\<in>set content. str_in ''# optional dependencies'' l \<longrightarrow> str_in ''# required dependencies'' l \<Longrightarrow>
   ci_loop st content = Inr st' \<Longrightarrow>
     \<not> seen_optional st' \<and> optional_deps st' = optional_deps st
     \<and> (seen_required st \<longrightarrow> seen_required st')"
proof (induction content arbitrary: st)
  case Nil
  then show ?case by simp
next
  case (Cons line content)
  from Cons.prems(3) obtain s where s: "ci_line st line = Inr s" and r: "ci_loop s content = Inr st'"
    by (auto split: sum.splits)
  from Cons.prems(2) have l: "str_in ''# optional dependencies'' line \<longrightarrow> str_in ''# required dependencies'' line"
    and c: "\<forall>l\<in>set content. str_in ''# optional dependencies'' l \<longrightarrow> str_in ''# required dependencies'' l"
    by simp_all
  from ci_line_before_optional [OF Cons.prems(1) l s]
  have s': "\<not> seen_optional s" "optional_deps s = optional_deps st" "seen_required st \<longrightarrow> seen_required s"
    by simp_all
  from Cons.IH [OF s'(1) c r] s' show ?case by simp
qed

lemma ci_line_forget_required:
  assumes "seen_required s = seen_required t" and "seen_optional s = seen_optional t"
    and "optional_deps s = optional_deps t"
  shows "map_sum id (\<lambda>s. (seen_required s, seen_optional s, optional_deps s)) (ci_line s line)
       = map_sum id (\<lambda>s. (seen_required s, seen_optional s, optional_deps s)) (ci_line t line)"
proof (cases "ci_parse line")
  case (Inl e)
  with assms show ?thesis by (simp add: ci_line_def)
next
  case (Inr pv)
  obtain package version where "pv = (package, version)" by (cases pv)
  with Inr assms show ?thesis by (simp add: ci_line_def)
qed

lemma ci_loop_forget_required:
  "seen_required s = seen_required t \<Longrightarrow> seen_optional s = seen_optional t \<Longrightarrow>
   optional_deps s = optional_deps t \<Longrightarrow>
     map_sum id optional_deps (ci_loop s content) = map_sum id optional_deps (ci_loop t content)"
proof (induction content arbitrary: s t)
  case Nil
  then show ?case by simp
next
  case (Cons line content)
  note f = ci_line_forget_required [OF Cons.prems, of line]
  show ?case
  proof (cases "ci_line s line")
    case (Inl e)
    with f have "ci_line t line = Inl e"
      by (cases "ci_line t line") simp_all
    with Inl show ?thesis by simp
  next
    case (Inr s')
    with f obtain t' where t': "ci_line t line = Inr t'"
      by (cases "ci_line t line") simp_all
    with Inr f have "seen_required s' = seen_required t'" "seen_optional s' = seen_optional t'"
      "optional_deps s' = optional_deps t'"
      by simp_all
    from Cons.IH [OF this] Inr t' show ?thesis by simp
  qed
qed

lemma main_ci_optional:
  "map_sum id snd (get_versions_from_ci c1) = map_sum id snd (get_versions_from_ci c2)
   \<Longrightarrow> main (w\<lparr>ci_lines := c1\<rparr>) = main (w\<lparr>ci_lines := c2\<rparr>)"
  by (cases "get_versions_from_ci c1"; cases "get_versions_from_ci c2")
     (auto simp: main_def split: sum.splits prod.splits)

lemma get_versions_from_ci_optional:
  "map_sum id snd (get_versions_from_ci content) = map_sum id optional_deps (ci_loop ci_init content)"
  by (simp add: get_versions_from_ci_def split: sum.splits)

text \<open>
  Claim C10 says that two CI files that differ only between the required marker and the
  optional marker give the same output and the same exit status. The lines of the
  required section are still parsed: with a line without delimiter there, the program
  ends with \<open>ValueError\<close>, while the program ends with status 0 on the file whose required
  section is well formed.
\<close>

theorem malformed_required_line:
  "main \<lparr>the_paths = \<lparr>ci_path = ''ci/deps/actions-38-minimum_versions.yaml'',
                         CODE_PATH = ''pandas/compat/_optional.py'', SETUP_PATH = ''setup.cfg''\<rparr>,
        ci_lines = [''  # required dependencies\<newline>'', ''  - python=3.8\<newline>'',
                    ''  # optional dependencies\<newline>'', ''  - numpy=1.20.3\<newline>''],
        optional = \<lparr>INSTALL_MAPPING = [],
                    VERSIONS = [(''numpy'', ''1.20.3''), (''tzdata'', ''2022a'')]\<rparr>,
        setup_all = ''\<newline>numpy>=1.20.3\<newline>tzdata>=2022a'',
        setup_test = ''\<newline>pytest>=7.0.0''\<rparr>
     = Inr ([], 0)
   \<and> main \<lparr>the_paths = \<lparr>ci_path = ''ci/deps/actions-38-minimum_versions.yaml'',
                         CODE_PATH = ''pandas/compat/_optional.py'', SETUP_PATH = ''setup.cfg''\<rparr>,
        ci_lines = [''  # required dependencies\<newline>'', ''  - python\<newline>'',
                    ''  # optional dependencies\<newline>'', ''  - numpy=1.20.3\<newline>''],
        optional = \<lparr>INSTALL_MAPPING = [],
                    VERSIONS = [(''numpy'', ''1.20.3''), (''tzdata'', ''2022a'')]\<rparr>,
        setup_all = ''\<newline>numpy>=1.20.3\<newline>tzdata>=2022a'',
        setup_test = ''\<newline>pytest>=7.0.0''\<rparr>
     = Inl ValueError"
  by code_simp

text \<open>
  Claim C10, amended. \<open>main\<close> drops the required mapping. Take two CI files that differ
  only in the lines \<open>mid1\<close> and \<open>mid2\<close> that follow the required marker \<open>rm\<close>, where no
  line up to the end of \<open>mid1\<close> and \<open>mid2\<close> is an optional marker (so these lines end
  before the optional marker). If the reader raises on both files or on neither, the
  outcome of the program is the same: the same exception, or the same output and exit
  status.
\<close>

theorem main_required_section:
  assumes rm: "str_in ''# required dependencies'' rm"
    and nopt: "\<forall>l\<in>set before \<union> set mid1 \<union> set mid2.
                str_in ''# optional dependencies'' l \<longrightarrow> str_in ''# required dependencies'' l"
    and both: "isl (get_versions_from_ci (before @ rm # mid1 @ rest))
                 = isl (get_versions_from_ci (before @ rm # mid2 @ rest))"
  shows "main (w\<lparr>ci_lines := before @ rm # mid1 @ rest\<rparr>)
           = main (w\<lparr>ci_lines := before @ rm # mid2 @ rest\<rparr>)"
proof -
  let ?c1 = "before @ rm # mid1 @ rest" and ?c2 = "before @ rm # mid2 @ rest"
  have loop: "ci_loop ci_init (before @ rm # mid @ rest) =
      (case ci_loop ci_init before of
         Inl e \<Rightarrow> Inl e
       | Inr s0 \<Rightarrow>
           (case ci_loop (s0\<lparr>seen_required := True\<rparr>) mid of
              Inl e \<Rightarrow> Inl e
            | Inr s2 \<Rightarrow> ci_loop s2 rest))" for mid
    using rm by (simp add: ci_loop_append ci_line_def split: sum.splits)
  have "map_sum id optional_deps (ci_loop ci_init ?c1) = map_sum id optional_deps (ci_loop ci_init ?c2)"
  proof (cases "ci_loop ci_init before")
    case (Inl e)
    then show ?thesis by (simp add: loop)
  next
    case (Inr s0)
    have "\<not> seen_optional ci_init" by (simp add: ci_init_def)
    from ci_loop_before_optional [OF this _ Inr] nopt
    have s0: "\<not> seen_optional s0" "optional_deps s0 = optional_deps ci_init"
      by simp_all
    let ?s1 = "s0\<lparr>seen_required := True\<rparr>"
    have s1: "\<not> seen_optional ?s1" using s0 by simp
    have mid: "\<not> seen_optional s2 \<and> optional_deps s2 = optional_deps ?s1 \<and> seen_required s2"
      if "ci_loop ?s1 m = Inr s2" and "m = mid1 \<or> m = mid2" for m s2
      using ci_loop_before_optional [OF s1 _ that(1)] nopt that(2) by auto
    show ?thesis
    proof (cases "ci_loop ?s1 mid1")
      case l1: (Inl e1)
      then have i1: "ci_loop ci_init ?c1 = Inl ValueError"
        using Inr ci_loop_error [OF l1] by (simp add: loop)
      then have "isl (get_versions_from_ci ?c1)"
        by (simp add: get_versions_from_ci_def)
      with both have "isl (get_versions_from_ci ?c2)" by simp
      then obtain e2 where "ci_loop ci_init ?c2 = Inl e2"
        by (auto simp: get_versions_from_ci_def split: sum.splits)
      with ci_loop_error [OF this] i1 show ?thesis by simp
    next
      case r1: (Inr s21)
      show ?thesis
      proof (cases "ci_loop ?s1 mid2")
        case l2: (Inl e2)
        then have i2: "ci_loop ci_init ?c2 = Inl ValueError"
          using Inr ci_loop_error [OF l2] by (simp add: loop)
        then have "isl (get_versions_from_ci ?c2)"
          by (simp add: get_versions_from_ci_def)
        with both have "isl (get_versions_from_ci ?c1)" by simp
        then obtain e1 where "ci_loop ci_init ?c1 = Inl e1"
          by (auto simp: get_versions_from_ci_def split: sum.splits)
        with ci_loop_error [OF this] i2 show ?thesis by simp
      next
        case r2: (Inr s22)
        from mid [OF r1] mid [OF r2]
        have "seen_required s21 = seen_required s22" "seen_optional s21 = seen_optional s22"
          "optional_deps s21 = optional_deps s22"
          by simp_all
        from ci_loop_forget_required [OF this, of rest] Inr r1 r2 show ?thesis
          by (simp add: loop)
      qed
    qed
  qed
  then have "map_sum id snd (get_versions_from_ci ?c1) = map_sum id snd (get_versions_from_ci ?c2)"
    by (simp only: get_versions_from_ci_optional)
  then show ?thesis
    by (rule main_ci_optional)
qed

text \<open>
  The theorem at two files whose required sections differ and are both well formed.
\<close>

theorem main_required_section_witness:
  "isl (get_versions_from_ci
          ([''dependencies:\<newline>''] @ ''  # required dependencies\<newline>''
           # [''  - python=3.8\<newline>'']
           @ [''  # optional dependencies\<newline>'', ''  - numpy=1.20.3\<newline>'']))
     = isl (get_versions_from_ci
          ([''dependencies:\<newline>''] @ ''  # required dependencies\<newline>''
           # [''  - python=3.9\<newline>'', ''  - pytz=2020.1\<newline>'']
           @ [''  # optional dependencies\<newline>'', ''  - numpy=1.20.3\<newline>'']))
   \<and> main (\<lparr>the_paths = \<lparr>ci_path = ''ci/deps/actions-38-minimum_versions.yaml'',
                         CODE_PATH = ''pandas/compat/_optional.py'', SETUP_PATH = ''setup.cfg''\<rparr>,
        ci_lines = [],
        optional = \<lparr>INSTALL_MAPPING = [],
                    VERSIONS = [(''numpy'', ''1.21.0''), (''tzdata'', ''2022a'')]\<rparr>,
        setup_all = ''\<newline>numpy>=1.20.3\<newline>tzdata>=2022a'',
        setup_test = ''\<newline>pytest>=7.0.0''\<rparr>
         \<lparr>ci_lines := [''dependencies:\<newline>''] @ ''  # required dependencies\<newline>''
           # [''  - python=3.8\<newline>'']
           @ [''  # optional dependencies\<newline>'', ''  - numpy=1.20.3\<newline>'']\<rparr>)
     = main (\<lparr>the_paths = \<lparr>ci_path = ''ci/deps/actions-38-minimum_versions.yaml'',
                         CODE_PATH = ''pandas/compat/_optional.py'', SETUP_PATH = ''setup.cfg''\<rparr>,
        ci_lines = [],
        optional = \<lparr>INSTALL_MAPPING = [],
                    VERSIONS = [(''numpy'', ''1.21.0''), (''tzdata'', ''2022a'')]\<rparr>,
        setup_all = ''\<newline>numpy>=1.20.3\<newline>tzdata>=2022a'',
        setup_test = ''\<newline>pytest>=7.0.0''\<rparr>
         \<lparr>ci_lines := [''dependencies:\<newline>''] @ ''  # required dependencies\<newline>''
           # [''  - python=3.9\<newline>'', ''  - pytz=2020.1\<newline>'']
           @ [''  # optional dependencies\<newline>'', ''  - numpy=1.20.3\<newline>'']\<rparr>)"
proof -
  let ?before = "[''dependencies:\<newline>'']"
  let ?rm = "''  # required dependencies\<newline>''"
  let ?mid1 = "[''  - python=3.8\<newline>'']"
  let ?mid2 = "[''  - python=3.9\<newline>'', ''  - pytz=2020.1\<newline>'']"
  let ?rest = "[''  # optional dependencies\<newline>'', ''  - numpy=1.20.3\<newline>'']"
  have rm: "str_in ''# required dependencies'' ?rm"
    by code_simp
  have nopt: "\<forall>l\<in>set ?before \<union> set ?mid1 \<union> set ?mid2.
                str_in ''# optional dependencies'' l \<longrightarrow> str_in ''# required dependencies'' l"
    by code_simp
  have both: "isl (get_versions_from_ci (?before @ ?rm # ?mid1 @ ?rest))
                 = isl (get_versions_from_ci (?before @ ?rm # ?mid2 @ ?rest))"
    by code_simp
  from both main_required_section [OF rm nopt both] show ?thesis
    by (intro conjI)
qed

section \<open>Normalisation of the package names\<close>

lemma code_comprehension_keys:
  "keys (code_comprehension im acc items) =
     keys acc \<union> {casefold (dict_get im k k) | k v. (k, v) \<in> set items \<and> k \<noteq> ''pytest''}"
proof (induction items arbitrary: acc)
  case Nil
  show ?case by simp
next
  case (Cons kv items)
  obtain k v where kv: "kv = (k, v)" by (cases kv)
  show ?case
    unfolding kv using Cons.IH by (auto simp: keys_update)
qed

lemma ci_line_keys:
  assumes "ci_line st line = Inr st'"
  shows "keys (required_deps st') \<union> keys (optional_deps st')
           \<subseteq> keys (required_deps st) \<union> keys (optional_deps st)
             \<union> {casefold package | package version. ci_parse line = Inr (package, version)}"
proof (cases "ci_parse line")
  case (Inl e)
  with assms show ?thesis by (auto simp: ci_line_def split: if_splits)
next
  case (Inr pv)
  obtain package version where "pv = (package, version)" by (cases pv)
  with Inr assms show ?thesis
    by (auto simp: ci_line_def keys_update split: if_splits)
qed

lemma ci_loop_keys:
  "ci_loop st content = Inr st' \<Longrightarrow>
     keys (required_deps st') \<union> keys (optional_deps st')
       \<subseteq> keys (required_deps st) \<union> keys (optional_deps st)
         \<union> {casefold package | line package version.
               line \<in> set content \<and> ci_parse line = Inr (package, version)}"
proof (induction content arbitrary: st)
  case Nil
  then show ?case by simp
next
  case (Cons line content)
  from Cons.prems obtain s where s: "ci_line st line = Inr s" and r: "ci_loop s content = Inr st'"
    by (auto split: sum.splits)
  from ci_line_keys [OF s] Cons.IH [OF r] show ?case
    by (simp add: subset_iff) blast
qed

text \<open>
  Claim C2 says that the names of all three sources go through the alias mapping. The CI
  reader has no alias mapping: with \<open>bs4\<close> installed as \<open>beautifulsoup4\<close>, the import name
  \<open>bs4\<close> in the CI file stays \<open>bs4\<close>, while the code table and the manifest give
  \<open>beautifulsoup4\<close>.
\<close>

theorem ci_name_not_aliased:
  "get_versions_from_ci
      [''  # required dependencies\<newline>'', ''  # optional dependencies\<newline>'',
       ''  - bs4=4.9.3\<newline>'']
     = Inr ([], [(''bs4'', ''4.9.3'')])
   \<and> fst (get_versions_from_code
        \<lparr>INSTALL_MAPPING = [(''bs4'', ''beautifulsoup4'')],
         VERSIONS = [(''bs4'', ''4.9.3''), (''tzdata'', ''2022a'')]\<rparr>)
     = Inr [(''beautifulsoup4'', ''4.9.3'')]
   \<and> get_versions_from_setup [(''bs4'', ''beautifulsoup4'')]
        ''\<newline>beautifulsoup4>=4.9.3\<newline>tzdata>=2022a'' ''\<newline>pytest>=7.0.0''
     = Inr [(''beautifulsoup4'', ''4.9.3'')]"
  by code_simp

text \<open>
  Claim C2, amended. The keys of the mapping of the code table are the names of the table
  (after the removal of the excluded packages, and without \<open>pytest\<close>) sent through the
  alias mapping and then case-folded; every key of the mapping of the manifest is the name
  of an entry sent through the alias mapping and then case-folded; every key of the two
  mappings of the CI file is the name of a parsed line, case-folded only.
\<close>

theorem names_normalized:
  "(get_versions_from_code m = (Inr code_optional, m') \<longrightarrow>
      keys code_optional =
        {casefold (dict_get (INSTALL_MAPPING m) k k) | k v.
           (k, v) \<in> set (VERSIONS m') \<and> k \<noteq> ''pytest''})
   \<and> (get_versions_from_setup install_map setup_optional test = Inr manifest \<longrightarrow>
        (\<forall>name\<in>keys manifest.
           \<exists>dependency\<in>set (setup_dependencies setup_optional test). \<exists>package version.
              setup_parse dependency = Inr (package, version)
              \<and> name = casefold (dict_get install_map package package)))
   \<and> (get_versions_from_ci content = Inr (required, ci_optional) \<longrightarrow>
        (\<forall>name\<in>keys required \<union> keys ci_optional.
           \<exists>line\<in>set content. \<exists>package version.
              ci_parse line = Inr (package, version) \<and> name = casefold package))"
proof (intro conjI impI ballI)
  assume "get_versions_from_code m = (Inr code_optional, m')"
  then have "code_optional = code_comprehension (INSTALL_MAPPING m) [] (VERSIONS m')"
    by (auto simp: get_versions_from_code_def Let_def split: prod.splits option.splits)
  then show "keys code_optional =
        {casefold (dict_get (INSTALL_MAPPING m) k k) | k v.
           (k, v) \<in> set (VERSIONS m') \<and> k \<noteq> ''pytest''}"
    using code_comprehension_keys [of "INSTALL_MAPPING m" "[]" "VERSIONS m'"]
    by (simp add: keys_def)
next
  fix name
  assume r: "get_versions_from_setup install_map setup_optional test = Inr manifest"
    and n: "name \<in> keys manifest"
  from r obtain d where
    d: "setup_loop install_map [] (setup_dependencies setup_optional test) = Inr d" and
    p: "pop_all EXCLUDE_DEPS d = Inr manifest"
    by (auto simp: get_versions_from_setup_def split: sum.splits)
  from pop_all_returns [OF p] n have "name \<in> keys d" by auto
  with setup_loop_keys [OF d] show
    "\<exists>dependency\<in>set (setup_dependencies setup_optional test). \<exists>package version.
              setup_parse dependency = Inr (package, version)
              \<and> name = casefold (dict_get install_map package package)"
    by (auto simp: keys_def)
next
  fix name
  assume r: "get_versions_from_ci content = Inr (required, ci_optional)"
    and n: "name \<in> keys required \<union> keys ci_optional"
  from r obtain st where st: "ci_loop ci_init content = Inr st"
    "required = required_deps st" "ci_optional = optional_deps st"
    by (auto simp: get_versions_from_ci_def split: sum.splits)
  have "keys (required_deps ci_init) \<union> keys (optional_deps ci_init) = {}"
    by (simp add: ci_init_def keys_def)
  with ci_loop_keys [OF st(1)]
  have "keys (required_deps st) \<union> keys (optional_deps st)
       \<subseteq> {casefold package | line package version.
               line \<in> set content \<and> ci_parse line = Inr (package, version)}"
    by simp
  with n st(2,3)
  have "name \<in> {casefold package | line package version.
               line \<in> set content \<and> ci_parse line = Inr (package, version)}"
    by blast
  then show
    "\<exists>line\<in>set content. \<exists>package version.
              ci_parse line = Inr (package, version) \<and> name = casefold package"
    by blast
qed

text \<open>
  The theorem at a code table and a manifest that declare \<open>bs4\<close>, and at a CI file that
  declares \<open>SQLAlchemy\<close>.
\<close>

theorem names_normalized_witness:
  "get_versions_from_code
      \<lparr>INSTALL_MAPPING = [(''bs4'', ''beautifulsoup4''), (''sqlalchemy'', ''SQLAlchemy'')],
       VERSIONS = [(''bs4'', ''4.9.3''), (''pytest'', ''7.0.0''), (''sqlalchemy'', ''1.4.16''),
                   (''tzdata'', ''2022a'')]\<rparr>
     = (Inr [(''beautifulsoup4'', ''4.9.3''), (''sqlalchemy'', ''1.4.16'')],
        \<lparr>INSTALL_MAPPING = [(''bs4'', ''beautifulsoup4''), (''sqlalchemy'', ''SQLAlchemy'')],
         VERSIONS = [(''bs4'', ''4.9.3''), (''pytest'', ''7.0.0''), (''sqlalchemy'', ''1.4.16'')]\<rparr>)
   \<and> keys [(''beautifulsoup4'', ''4.9.3''), (''sqlalchemy'', ''1.4.16'')] =
        {casefold (dict_get [(''bs4'', ''beautifulsoup4''), (''sqlalchemy'', ''SQLAlchemy'')] k k) | k v.
           (k, v) \<in> set [(''bs4'', ''4.9.3''), (''pytest'', ''7.0.0''), (''sqlalchemy'', ''1.4.16'')]
           \<and> k \<noteq> ''pytest''}
   \<and> get_versions_from_setup [(''bs4'', ''beautifulsoup4'')]
        ''\<newline>bs4>=4.9.3\<newline>tzdata>=2022a'' ''\<newline>pytest>=7.0.0''
       = Inr [(''beautifulsoup4'', ''4.9.3'')]
   \<and> (\<exists>dependency\<in>set (setup_dependencies ''\<newline>bs4>=4.9.3\<newline>tzdata>=2022a''
                                  ''\<newline>pytest>=7.0.0'').
           \<exists>package version.
              setup_parse dependency = Inr (package, version)
              \<and> ''beautifulsoup4'' = casefold (dict_get [(''bs4'', ''beautifulsoup4'')] package package))
   \<and> get_versions_from_ci
        [''  # required dependencies\<newline>'', ''  # optional dependencies\<newline>'',
         ''  - SQLAlchemy=1.4.16\<newline>'']
       = Inr ([], [(''sqlalchemy'', ''1.4.16'')])
   \<and> (\<exists>line\<in>set [''  # required dependencies\<newline>'', ''  # optional dependencies\<newline>'',
                          ''  - SQLAlchemy=1.4.16\<newline>''].
           \<exists>package version.
              ci_parse line = Inr (package, version) \<and> ''sqlalchemy'' = casefold package)"
proof -
  let ?im = "[(''bs4'', ''beautifulsoup4''), (''sqlalchemy'', ''SQLAlchemy'')]"
  let ?m = "\<lparr>INSTALL_MAPPING = ?im,
       VERSIONS = [(''bs4'', ''4.9.3''), (''pytest'', ''7.0.0''), (''sqlalchemy'', ''1.4.16''),
                   (''tzdata'', ''2022a'')]\<rparr>"
  let ?m' = "\<lparr>INSTALL_MAPPING = ?im,
         VERSIONS = [(''bs4'', ''4.9.3''), (''pytest'', ''7.0.0''), (''sqlalchemy'', ''1.4.16'')]\<rparr>"
  let ?code = "[(''beautifulsoup4'', ''4.9.3''), (''sqlalchemy'', ''1.4.16'')]"
  let ?content = "[''  # required dependencies\<newline>'', ''  # optional dependencies\<newline>'',
         ''  - SQLAlchemy=1.4.16\<newline>'']"
  have c: "get_versions_from_code ?m = (Inr ?code, ?m')"
    by code_simp
  have s: "get_versions_from_setup [(''bs4'', ''beautifulsoup4'')]
        ''\<newline>bs4>=4.9.3\<newline>tzdata>=2022a'' ''\<newline>pytest>=7.0.0''
       = Inr [(''beautifulsoup4'', ''4.9.3'')]"
    by code_simp
  have i: "get_versions_from_ci ?content = Inr ([], [(''sqlalchemy'', ''1.4.16'')])"
    by code_simp
  note n = names_normalized [where m = ?m and code_optional = ?code and m' = ?m'
        and install_map = "[(''bs4'', ''beautifulsoup4'')]"
        and setup_optional = "''\<newline>bs4>=4.9.3\<newline>tzdata>=2022a''"
        and test = "''\<newline>pytest>=7.0.0''"
        and manifest = "[(''beautifulsoup4'', ''4.9.3'')]" and content = ?content
        and required = "[]" and ci_optional = "[(''sqlalchemy'', ''1.4.16'')]"]
  have k: "keys ?code =
        {casefold (dict_get (INSTALL_MAPPING ?m) k k) | k v.
           (k, v) \<in> set (VERSIONS ?m') \<and> k \<noteq> ''pytest''}"
    using n [THEN conjunct1] c by (rule mp)
  have k': "keys ?code =
        {casefold (dict_get ?im k k) | k v.
           (k, v) \<in> set [(''bs4'', ''4.9.3''), (''pytest'', ''7.0.0''), (''sqlalchemy'', ''1.4.16'')]
           \<and> k \<noteq> ''pytest''}"
    using k by (simp only: optional_module.simps)
  have ks: "\<forall>name\<in>keys [(''beautifulsoup4'', ''4.9.3'')].
           \<exists>dependency\<in>set (setup_dependencies ''\<newline>bs4>=4.9.3\<newline>tzdata>=2022a''
                                  ''\<newline>pytest>=7.0.0'').
           \<exists>package version.
              setup_parse dependency = Inr (package, version)
              \<and> name = casefold (dict_get [(''bs4'', ''beautifulsoup4'')] package package)"
    using n [THEN conjunct2, THEN conjunct1] s by (rule mp)
  have ki: "\<forall>name\<in>keys [] \<union> keys [(''sqlalchemy'', ''1.4.16'')].
           \<exists>line\<in>set ?content.
           \<exists>package version.
              ci_parse line = Inr (package, version) \<and> name = casefold package"
    using n [THEN conjunct2, THEN conjunct2] i by (rule mp)
  have "''beautifulsoup4'' \<in> keys [(''beautifulsoup4'', ''4.9.3'')]"
    by (simp add: keys_def)
  with ks have ks': "\<exists>dependency\<in>set (setup_dependencies ''\<newline>bs4>=4.9.3\<newline>tzdata>=2022a''
                                  ''\<newline>pytest>=7.0.0'').
           \<exists>package version.
              setup_parse dependency = Inr (package, version)
              \<and> ''beautifulsoup4'' = casefold (dict_get [(''bs4'', ''beautifulsoup4'')] package package)"
    by (rule bspec)
  have "''sqlalchemy'' \<in> keys [] \<union> keys [(''sqlalchemy'', ''1.4.16'')]"
    by (simp add: keys_def)
  with ki have ki': "\<exists>line\<in>set ?content.
           \<exists>package version.
              ci_parse line = Inr (package, version) \<and> ''sqlalchemy'' = casefold package"
    by (rule bspec)
  from c k' s ks' i ki' show ?thesis by (intro conjI)
qed

section \<open>Test dependencies of the manifest\<close>

text \<open>
  Claim C6 concludes that a package listed in the \<open>test\<close> list is not compared with the
  other sources. The reader compares whole entries as text. Below, \<open>pytest>=7.0.0\<close> is an
  entry of \<open>test\<close>; the identical entry of \<open>all\<close> is removed, but \<open>all\<close> holds a second entry
  for the package, spelled \<open>PyTest>=7.0.0\<close> in the first manifest and \<open>pytest>=7.0.1\<close> in
  the second, and \<open>pytest\<close> is a key of the result.
\<close>

theorem test_package_still_compared:
  "''pytest>=7.0.0'' \<in> set (str_split (drop 1 ''\<newline>pytest>=7.0.0'') [nl])
   \<and> setup_parse ''pytest>=7.0.0'' = Inr (''pytest'', ''7.0.0'')
   \<and> str_split (drop 1 ''\<newline>pytest>=7.0.0\<newline>PyTest>=7.0.0\<newline>tzdata>=2022a'') [nl]
        = [''pytest>=7.0.0'', ''PyTest>=7.0.0'', ''tzdata>=2022a'']
   \<and> get_versions_from_setup []
        ''\<newline>pytest>=7.0.0\<newline>PyTest>=7.0.0\<newline>tzdata>=2022a'' ''\<newline>pytest>=7.0.0''
       = Inr [(''pytest'', ''7.0.0'')]
   \<and> get_versions_from_setup []
        ''\<newline>pytest>=7.0.0\<newline>pytest>=7.0.1\<newline>tzdata>=2022a'' ''\<newline>pytest>=7.0.0''
       = Inr [(''pytest'', ''7.0.1'')]"
  by code_simp

text \<open>
  Claim C6, amended. The removal is by entry, as text. An entry of the \<open>test\<close> list never
  reaches the version extraction: it is not among the dependencies that the loop visits,
  and deleting its line from the \<open>all\<close> list leaves the result of the reader unchanged.
  The keys of the result are exactly the normalized names of the entries of \<open>all\<close> that
  are not, as text, entries of \<open>test\<close>, without the excluded packages: a package of the
  \<open>test\<close> list is left out of the comparison only when \<open>all\<close> has no other entry for it.
\<close>

theorem test_dependencies_removed:
  "(entry \<in> set (str_split (drop 1 test) [nl])
      \<longrightarrow> entry \<notin> set (setup_dependencies setup_optional test))
   \<and> (entry \<in> set (str_split (drop 1 test) [nl])
        \<and> str_split (drop 1 all1) [nl] = xs @ entry # ys
        \<and> str_split (drop 1 all2) [nl] = xs @ ys
      \<longrightarrow> get_versions_from_setup install_map all1 test
            = get_versions_from_setup install_map all2 test)
   \<and> (get_versions_from_setup install_map setup_optional test = Inr manifest \<longrightarrow>
        (\<forall>name\<in>keys manifest.
           \<exists>dependency\<in>set (str_split (drop 1 setup_optional) [nl]).
              dependency \<notin> set (str_split (drop 1 test) [nl])
              \<and> (\<exists>package version. setup_parse dependency = Inr (package, version)
                    \<and> name = casefold (dict_get install_map package package))))
   \<and> (get_versions_from_setup install_map setup_optional test = Inr manifest \<longrightarrow>
        keys manifest =
          {casefold (dict_get install_map package package) | dependency package version.
             dependency \<in> set (str_split (drop 1 setup_optional) [nl])
             \<and> dependency \<notin> set (str_split (drop 1 test) [nl])
             \<and> setup_parse dependency = Inr (package, version)}
          - set EXCLUDE_DEPS)"
proof (intro conjI impI ballI)
  assume "entry \<in> set (str_split (drop 1 test) [nl])"
  then show "entry \<notin> set (setup_dependencies setup_optional test)"
    by (simp add: setup_dependencies_def)
next
  assume "entry \<in> set (str_split (drop 1 test) [nl])
        \<and> str_split (drop 1 all1) [nl] = xs @ entry # ys
        \<and> str_split (drop 1 all2) [nl] = xs @ ys"
  then have "setup_dependencies all1 test = setup_dependencies all2 test"
    by (simp add: setup_dependencies_def)
  then show "get_versions_from_setup install_map all1 test
            = get_versions_from_setup install_map all2 test"
    by (simp add: get_versions_from_setup_def)
next
  fix name
  assume r: "get_versions_from_setup install_map setup_optional test = Inr manifest"
    and n: "name \<in> keys manifest"
  from r obtain d where
    d: "setup_loop install_map [] (setup_dependencies setup_optional test) = Inr d" and
    p: "pop_all EXCLUDE_DEPS d = Inr manifest"
    by (auto simp: get_versions_from_setup_def split: sum.splits)
  from pop_all_returns [OF p] n have "name \<in> keys d" by auto
  with setup_loop_keys [OF d] obtain dependency package version where
    "dependency \<in> set (setup_dependencies setup_optional test)"
    "setup_parse dependency = Inr (package, version)"
    "name = casefold (dict_get install_map package package)"
    by (auto simp: keys_def)
  then show "\<exists>dependency\<in>set (str_split (drop 1 setup_optional) [nl]).
              dependency \<notin> set (str_split (drop 1 test) [nl])
              \<and> (\<exists>package version. setup_parse dependency = Inr (package, version)
                    \<and> name = casefold (dict_get install_map package package))"
    by (auto simp: setup_dependencies_def)
next
  assume r: "get_versions_from_setup install_map setup_optional test = Inr manifest"
  from r obtain d where
    d: "setup_loop install_map [] (setup_dependencies setup_optional test) = Inr d" and
    p: "pop_all EXCLUDE_DEPS d = Inr manifest"
    by (auto simp: get_versions_from_setup_def split: sum.splits)
  have m: "keys manifest = keys d - set EXCLUDE_DEPS"
    using pop_all_returns [OF p] by simp
  have "keys [] = {}" by (simp add: keys_def)
  with setup_loop_keys [OF d]
  have "keys d =
          {casefold (dict_get install_map package package) | dependency package version.
             dependency \<in> set (setup_dependencies setup_optional test)
             \<and> setup_parse dependency = Inr (package, version)}"
    by simp
  also have "\<dots> =
          {casefold (dict_get install_map package package) | dependency package version.
             dependency \<in> set (str_split (drop 1 setup_optional) [nl])
             \<and> dependency \<notin> set (str_split (drop 1 test) [nl])
             \<and> setup_parse dependency = Inr (package, version)}"
    by (simp add: setup_dependencies_def conj_assoc)
  finally show "keys manifest =
          {casefold (dict_get install_map package package) | dependency package version.
             dependency \<in> set (str_split (drop 1 setup_optional) [nl])
             \<and> dependency \<notin> set (str_split (drop 1 test) [nl])
             \<and> setup_parse dependency = Inr (package, version)}
          - set EXCLUDE_DEPS"
    using m by simp
qed

text \<open>
  The theorem at a manifest whose \<open>all\<close> list repeats the entry \<open>pytest>=7.0.0\<close> of its
  \<open>test\<close> list, and at one whose \<open>all\<close> list also holds \<open>pytest>=7.0.1\<close>.
\<close>

theorem test_dependencies_removed_witness:
  "''pytest>=7.0.0'' \<in> set (str_split (drop 1 ''\<newline>pytest>=7.0.0\<newline>hypothesis>=6.34.2'') [nl])
   \<and> str_split (drop 1 ''\<newline>numpy>=1.20.3\<newline>pytest>=7.0.0\<newline>tzdata>=2022a'') [nl]
        = [''numpy>=1.20.3''] @ ''pytest>=7.0.0'' # [''tzdata>=2022a'']
   \<and> str_split (drop 1 ''\<newline>numpy>=1.20.3\<newline>tzdata>=2022a'') [nl]
        = [''numpy>=1.20.3''] @ [''tzdata>=2022a'']
   \<and> ''pytest>=7.0.0'' \<notin> set (setup_dependencies
          ''\<newline>numpy>=1.20.3\<newline>pytest>=7.0.0\<newline>tzdata>=2022a''
          ''\<newline>pytest>=7.0.0\<newline>hypothesis>=6.34.2'')
   \<and> get_versions_from_setup []
          ''\<newline>numpy>=1.20.3\<newline>pytest>=7.0.0\<newline>tzdata>=2022a''
          ''\<newline>pytest>=7.0.0\<newline>hypothesis>=6.34.2''
       = get_versions_from_setup []
          ''\<newline>numpy>=1.20.3\<newline>tzdata>=2022a''
          ''\<newline>pytest>=7.0.0\<newline>hypothesis>=6.34.2''
   \<and> get_versions_from_setup []
          ''\<newline>numpy>=1.20.3\<newline>tzdata>=2022a''
          ''\<newline>pytest>=7.0.0\<newline>hypothesis>=6.34.2''
       = Inr [(''numpy'', ''1.20.3'')]
   \<and> (\<exists>dependency\<in>set (str_split (drop 1 ''\<newline>numpy>=1.20.3\<newline>tzdata>=2022a'') [nl]).
          dependency \<notin> set (str_split (drop 1 ''\<newline>pytest>=7.0.0\<newline>hypothesis>=6.34.2'') [nl])
          \<and> (\<exists>package version. setup_parse dependency = Inr (package, version)
                \<and> ''numpy'' = casefold (dict_get [] package package)))
   \<and> get_versions_from_setup []
          ''\<newline>pytest>=7.0.0\<newline>pytest>=7.0.1\<newline>tzdata>=2022a''
          ''\<newline>pytest>=7.0.0\<newline>hypothesis>=6.34.2''
       = Inr [(''pytest'', ''7.0.1'')]
   \<and> keys [(''pytest'', ''7.0.1'')] =
          {casefold (dict_get [] package package) | dependency package version.
             dependency \<in> set (str_split (drop 1
                 ''\<newline>pytest>=7.0.0\<newline>pytest>=7.0.1\<newline>tzdata>=2022a'') [nl])
             \<and> dependency \<notin> set (str_split (drop 1
                 ''\<newline>pytest>=7.0.0\<newline>hypothesis>=6.34.2'') [nl])
             \<and> setup_parse dependency = Inr (package, version)}
          - set EXCLUDE_DEPS"
proof -
  let ?all1 = "''\<newline>numpy>=1.20.3\<newline>pytest>=7.0.0\<newline>tzdata>=2022a''"
  let ?all2 = "''\<newline>numpy>=1.20.3\<newline>tzdata>=2022a''"
  let ?test = "''\<newline>pytest>=7.0.0\<newline>hypothesis>=6.34.2''"
  have t: "''pytest>=7.0.0'' \<in> set (str_split (drop 1 ?test) [nl])"
    by code_simp
  have a1: "str_split (drop 1 ?all1) [nl] = [''numpy>=1.20.3''] @ ''pytest>=7.0.0'' # [''tzdata>=2022a'']"
    by code_simp
  have a2: "str_split (drop 1 ?all2) [nl] = [''numpy>=1.20.3''] @ [''tzdata>=2022a'']"
    by code_simp
  have n: "''pytest>=7.0.0'' \<notin> set (setup_dependencies ?all1 ?test)"
    using test_dependencies_removed [of "''pytest>=7.0.0''" ?test ?all1, THEN conjunct1] t
    by (rule mp)
  have e: "get_versions_from_setup [] ?all1 ?test = get_versions_from_setup [] ?all2 ?test"
    using test_dependencies_removed
            [of "''pytest>=7.0.0''" ?test _ ?all1 "[''numpy>=1.20.3'']" "[''tzdata>=2022a'']" ?all2 "[]",
             THEN conjunct2, THEN conjunct1] t a1 a2
    by blast
  have v: "get_versions_from_setup [] ?all2 ?test = Inr [(''numpy'', ''1.20.3'')]"
    by code_simp
  have "\<forall>name\<in>keys [(''numpy'', ''1.20.3'')].
           \<exists>dependency\<in>set (str_split (drop 1 ?all2) [nl]).
              dependency \<notin> set (str_split (drop 1 ?test) [nl])
              \<and> (\<exists>package version. setup_parse dependency = Inr (package, version)
                    \<and> name = casefold (dict_get [] package package))"
    using test_dependencies_removed
            [where install_map = "[]" and setup_optional = ?all2 and test = ?test
               and manifest = "[(''numpy'', ''1.20.3'')]",
             THEN conjunct2, THEN conjunct2, THEN conjunct1] v
    by (rule mp)
  moreover have "''numpy'' \<in> keys [(''numpy'', ''1.20.3'')]"
    by (simp add: keys_def)
  ultimately have o: "\<exists>dependency\<in>set (str_split (drop 1 ?all2) [nl]).
              dependency \<notin> set (str_split (drop 1 ?test) [nl])
              \<and> (\<exists>package version. setup_parse dependency = Inr (package, version)
                    \<and> ''numpy'' = casefold (dict_get [] package package))"
    by (rule bspec)
  let ?all3 = "''\<newline>pytest>=7.0.0\<newline>pytest>=7.0.1\<newline>tzdata>=2022a''"
  have v3: "get_versions_from_setup [] ?all3 ?test = Inr [(''pytest'', ''7.0.1'')]"
    by code_simp
  have k: "keys [(''pytest'', ''7.0.1'')] =
          {casefold (dict_get [] package package) | dependency package version.
             dependency \<in> set (str_split (drop 1 ?all3) [nl])
             \<and> dependency \<notin> set (str_split (drop 1 ?test) [nl])
             \<and> setup_parse dependency = Inr (package, version)}
          - set EXCLUDE_DEPS"
    using test_dependencies_removed
            [where install_map = "[]" and setup_optional = ?all3 and test = ?test
               and manifest = "[(''pytest'', ''7.0.1'')]",
             THEN conjunct2, THEN conjunct2, THEN conjunct2] v3
    by (rule mp)
  from t a1 a2 n e v o v3 k show ?thesis by (intro conjI)
qed

section \<open>Excluded packages in the report\<close>

text \<open>
  Claim C4. The CI reader compares the name with the exclusion set before it case-folds
  the name. All three sources below declare \<open>tzdata 2022a\<close>, the CI file in capitals: the
  code table and the manifest drop the package, the CI reader keeps it under the key
  \<open>tzdata\<close>, and the program reports \<open>tzdata\<close> and ends with status 1.
\<close>

theorem excluded_package_reported:
  "main \<lparr>the_paths = \<lparr>ci_path = ''ci/deps/actions-38-minimum_versions.yaml'',
                         CODE_PATH = ''pandas/compat/_optional.py'', SETUP_PATH = ''setup.cfg''\<rparr>,
        ci_lines = [''  # required dependencies\<newline>'', ''  - python=3.8\<newline>'',
                    ''  # optional dependencies\<newline>'', ''  - numpy=1.20.3\<newline>'',
                    ''  - TZDATA=2022a\<newline>''],
        optional = \<lparr>INSTALL_MAPPING = [],
                    VERSIONS = [(''numpy'', ''1.20.3''), (''tzdata'', ''2022a'')]\<rparr>,
        setup_all = ''\<newline>numpy>=1.20.3\<newline>tzdata>=2022a'',
        setup_test = ''\<newline>pytest>=7.0.0''\<rparr>
   = Inr (''The follow minimum version differences were found between  ci/deps/actions-38-minimum_versions.yaml, pandas/compat/_optional.py AND setup.cfg. Please ensure these are aligned: \<newline>\<newline>tzdata\<newline>ci/deps/actions-38-minimum_versions.yaml: 2022a\<newline>pandas/compat/_optional.py: Not specified\<newline>setup.cfg: Not specified\<newline>\<newline>'', 1)"
  by code_simp

end
